theory Spec2Isabelle
  imports Complex_Main
begin

section \<open>Face-image preprocessing utilities (facenet_sandberg/utils.py)\<close>

text \<open>
  The module is a flat set of functions over numpy arrays, coordinate lists and Python
  numbers. Python integers are modelled as \<open>int\<close>. A Python float is an IEEE binary64
  value: a finite one is the \<open>real\<close> it denotes, and every arithmetic operation on
  floats rounds its exact result to the nearest binary64 value, ties to even, and
  overflows to an infinity. Every exception the source can raise is a value of the
  type \<open>error\<close>, and a function that can raise returns \<open>error + 'a\<close>.
\<close>

subsection \<open>Errors\<close>

datatype error =
    ValueError string
  | IndexError string
  | OverflowError string

text \<open>Statements run in sequence: the first exception ends the function.\<close>

definition then_do :: "error + 'a \<Rightarrow> ('a \<Rightarrow> error + 'b) \<Rightarrow> error + 'b" where
  "then_do r f = (case r of Inl e \<Rightarrow> Inl e | Inr v \<Rightarrow> f v)"

subsection \<open>Python floats\<close>

text \<open>
  A float is minus infinity, a finite binary64 value or plus infinity. The operations
  below never meet a NaN: none of them combines two infinities or an infinity with
  zero. Signed zeros are not told apart: no operation below depends on the sign of a
  zero.
\<close>

datatype float64 = NegInf | Finite real | PosInf

text \<open>Rounding to the nearest integer, a tie going to the even one.\<close>

definition round_half_even :: "real \<Rightarrow> int" where
  "round_half_even y =
     (let n = \<lfloor>y\<rfloor>; r = y - of_int n
      in if r < 1 / 2 then n else if 1 / 2 < r then n + 1 else if even n then n else n + 1)"

text \<open>
  The binary64 values around a real \<open>a\<close> are the multiples of \<open>2 powi e\<close> where
  \<open>e\<close> is the exponent with \<open>2 powi (e + 52) \<le> \<bar>a\<bar> < 2 powi (e + 53)\<close>, and of
  \<open>2 powi (- 1074)\<close> in the subnormal range below \<open>2 powi (- 1022)\<close>. The exponent is
  found by stepping up from 0 while \<open>a\<close> is too large and then down while it is too
  small.
\<close>

function exp_up :: "real \<Rightarrow> int \<Rightarrow> int" where
  "exp_up a e = (if 2 powi (e + 53) \<le> a then exp_up a (e + 1) else e)"
  by pat_completeness auto
termination
proof (relation "measure (\<lambda>(a, e). nat \<lfloor>a / 2 powi (e + 53)\<rfloor>)")
  show "wf (measure (\<lambda>(a, e). nat \<lfloor>a / 2 powi (e + 53)\<rfloor>))" by simp
next
  fix a :: real and e :: int
  assume le: "2 powi (e + 53) \<le> a"
  define q where "q = a / 2 powi (e + 53)"
  have pos: "(0::real) < 2 powi (e + 53)" by simp
  have q1: "1 \<le> q" using le pos by (simp add: q_def field_simps)
  have eq: "a / 2 powi (e + 1 + 53) = q / 2"
    by (simp add: q_def power_int_add field_simps)
  have "1 \<le> \<lfloor>q\<rfloor>" using q1 by simp
  moreover have "q / 2 < of_int \<lfloor>q\<rfloor> / 2 + 1 / 2"
    using floor_correct [of q] by linarith
  ultimately have "q / 2 < of_int \<lfloor>q\<rfloor>"
    by (smt (verit) field_sum_of_halves of_int_1_le_iff)
  then have "\<lfloor>q / 2\<rfloor> < \<lfloor>q\<rfloor>" by (simp add: floor_less_iff)
  moreover have "0 < \<lfloor>q\<rfloor>" using q1 by simp
  ultimately have "nat \<lfloor>q / 2\<rfloor> < nat \<lfloor>q\<rfloor>" by linarith
  then have "nat \<lfloor>a / 2 powi (e + 1 + 53)\<rfloor> < nat \<lfloor>a / 2 powi (e + 53)\<rfloor>"
    unfolding eq by (simp only: q_def)
  then show "((a, e + 1), (a, e)) \<in> measure (\<lambda>(a, e). nat \<lfloor>a / 2 powi (e + 53)\<rfloor>)"
    by (simp only: in_measure prod.case)
qed

function exp_down :: "real \<Rightarrow> int \<Rightarrow> int" where
  "exp_down a e = (if - 1074 < e \<and> a < 2 powi (e + 52) then exp_down a (e - 1) else e)"
  by pat_completeness auto
termination
  by (relation "measure (\<lambda>(a, e). nat (e + 1074))") auto

declare exp_up.simps [simp del] exp_down.simps [simp del]

definition ulp_exponent :: "real \<Rightarrow> int" where
  "ulp_exponent x = exp_down \<bar>x\<bar> (exp_up \<bar>x\<bar> 0)"

text \<open>
  \<open>round64 x\<close> is the float that an operation with exact result \<open>x\<close> produces: the
  nearest multiple of the unit in the last place, or an infinity when that multiple
  reaches \<open>2 ^ 1024\<close>.
\<close>

definition nearest_multiple :: "int \<Rightarrow> real \<Rightarrow> real" where
  "nearest_multiple e x = of_int (round_half_even (x / 2 powi e)) * 2 powi e"

definition overflow_threshold :: real where
  "overflow_threshold = 2 ^ 1024"

definition or_infinity :: "real \<Rightarrow> float64" where
  "or_infinity r =
     (if overflow_threshold \<le> r then PosInf
      else if r \<le> - overflow_threshold then NegInf
      else Finite r)"

definition round64 :: "real \<Rightarrow> float64" where
  "round64 x = or_infinity (nearest_multiple (ulp_exponent x) x)"

text \<open>
  An integer operand of a float operation is converted first, and Python raises
  OverflowError when the integer is too large for a float.
\<close>

definition float_of_int :: "int \<Rightarrow> error + real" where
  "float_of_int n =
     (case round64 (of_int n) of
        Finite r \<Rightarrow> Inr r
      | _ \<Rightarrow> Inl (OverflowError ''int too large to convert to float''))"

text \<open>
  The float operations the module uses, with a finite left operand where the source
  has one: \<open>a - b\<close>, \<open>a + b\<close>, \<open>b / 2\<close>.
\<close>

fun f_sub :: "real \<Rightarrow> float64 \<Rightarrow> float64" where
  "f_sub a NegInf = PosInf"
| "f_sub a (Finite b) = round64 (a - b)"
| "f_sub a PosInf = NegInf"

fun f_add :: "real \<Rightarrow> float64 \<Rightarrow> float64" where
  "f_add a NegInf = NegInf"
| "f_add a (Finite b) = round64 (a + b)"
| "f_add a PosInf = PosInf"

fun f_half :: "float64 \<Rightarrow> float64" where
  "f_half NegInf = NegInf"
| "f_half (Finite b) = round64 (b / 2)"
| "f_half PosInf = PosInf"

fun f_le :: "float64 \<Rightarrow> float64 \<Rightarrow> bool" where
  "f_le NegInf b = True"
| "f_le (Finite a) NegInf = False"
| "f_le (Finite a) (Finite b) = (a \<le> b)"
| "f_le (Finite a) PosInf = True"
| "f_le PosInf PosInf = True"
| "f_le PosInf b = False"

definition np_maximum :: "float64 \<Rightarrow> float64 \<Rightarrow> float64" where
  "np_maximum a b = (if f_le a b then b else a)"

definition np_minimum :: "float64 \<Rightarrow> float64 \<Rightarrow> float64" where
  "np_minimum a b = (if f_le a b then a else b)"

text \<open>
  \<open>int(x)\<close> on a float truncates towards zero and raises OverflowError on an
  infinity.
\<close>

definition toward_zero :: "real \<Rightarrow> int" where
  "toward_zero x = (if 0 \<le> x then \<lfloor>x\<rfloor> else \<lceil>x\<rceil>)"

definition py_int :: "float64 \<Rightarrow> error + int" where
  "py_int x =
     (case x of
        Finite a \<Rightarrow> Inr (toward_zero a)
      | _ \<Rightarrow> Inl (OverflowError ''cannot convert float infinity to integer''))"

text \<open>
  \<open>a / b\<close> on two integers is the correctly rounded quotient, and raises
  OverflowError when it is too large for a float; the module divides by 2 only.
\<close>

definition int_half :: "int \<Rightarrow> error + real" where
  "int_half a =
     (case round64 (of_int a / 2) of
        Finite r \<Rightarrow> Inr r
      | _ \<Rightarrow> Inl (OverflowError ''integer division result too large for a float''))"

subsection \<open>numpy arrays\<close>

text \<open>
  An array is its shape and its elements in row-major order, as numpy stores a
  contiguous array. \<open>image.ndim\<close> is the length of the shape, \<open>image.size\<close> the product
  of its entries. An array is well formed when it holds exactly \<open>size\<close> elements.
\<close>

record 'a ndarray =
  shape :: "nat list"
  data :: "'a list"

definition ndim :: "'a ndarray \<Rightarrow> nat" where
  "ndim a = length (shape a)"

definition well_formed :: "'a ndarray \<Rightarrow> bool" where
  "well_formed a = (length (data a) = prod_list (shape a))"

text \<open>
  A slice \<open>start:stop\<close> along an axis of length \<open>n\<close>: a negative bound counts from
  the end, every bound is clipped to \<open>[0, n]\<close>, and the slice is empty when the
  clipped stop is not after the clipped start.
\<close>

definition slice_bound :: "nat \<Rightarrow> int \<Rightarrow> nat" where
  "slice_bound n i =
     (if i < 0 then (if i + int n < 0 then 0 else nat (i + int n))
      else if int n < i then n else nat i)"

definition slice_len :: "nat \<Rightarrow> int \<Rightarrow> int \<Rightarrow> nat" where
  "slice_len n start stop = slice_bound n stop - slice_bound n start"

definition slice_list :: "nat \<Rightarrow> int \<Rightarrow> int \<Rightarrow> 'a list \<Rightarrow> 'a list" where
  "slice_list n start stop xs = take (slice_len n start stop) (drop (slice_bound n start) xs)"

text \<open>\<open>blocks n xs\<close> cuts the row-major data into the consecutive runs of \<open>n\<close> elements.\<close>

fun blocks :: "nat \<Rightarrow> 'a list \<Rightarrow> 'a list list" where
  "blocks n xs = (if n = 0 \<or> xs = [] then [] else take n xs # blocks n (drop n xs))"

declare blocks.simps [simp del]

text \<open>
  The data of \<open>a[..., start:stop, ...]\<close> with the slice on axis \<open>k\<close> and \<open>:\<close> on every
  other axis, for data laid out by the given shape.
\<close>

fun slice_data :: "nat \<Rightarrow> int \<Rightarrow> int \<Rightarrow> nat list \<Rightarrow> 'a list \<Rightarrow> 'a list" where
  "slice_data k start stop [] xs = xs"
| "slice_data 0 start stop (n # rest) xs =
     concat (slice_list n start stop (blocks (prod_list rest) xs))"
| "slice_data (Suc k) start stop (n # rest) xs =
     concat (map (slice_data k start stop rest) (blocks (prod_list rest) xs))"

definition slice_axis :: "nat \<Rightarrow> int \<Rightarrow> int \<Rightarrow> 'a ndarray \<Rightarrow> 'a ndarray" where
  "slice_axis k start stop a =
     \<lparr>shape = (shape a)[k := slice_len (shape a ! k) start stop],
      data = slice_data k start stop (shape a) (data a)\<rparr>"

subsection \<open>Cropping\<close>

text \<open>
  \<^verbatim>\<open>
  def crop(image, bb, margin):
      if margin < 0:
          raise ValueError("the margin must be a value between 0 and 1")
      if margin > 1:
          raise ValueError(
              "the margin must be a value between 0 and 1 - this is a change from the existing API")
      img_height = image.shape[0]
      img_width = image.shape[1]
      x0, y0, x1, y1 = bb[:4]
      margin_height = (y1 - y0) * margin / 2
      margin_width = (x1 - x0) * margin / 2
      x0 = int(np.maximum(x0 - margin_width, 0))
      y0 = int(np.maximum(y0 - margin_height, 0))
      x1 = int(np.minimum(x1 + margin_width, img_width))
      y1 = int(np.minimum(y1 + margin_height, img_height))
      return image[y0:y1, x0:x1, :], (x0, y0, x1, y1)
  \<close>
  The statements run in the source's order, so the margin check comes before any
  look at the image or the box. \<open>image.shape[0]\<close> and \<open>image.shape[1]\<close> raise
  IndexError on an array of fewer than two dimensions, the unpacking raises ValueError
  when \<open>bb\<close> has fewer than four entries, and the three-axis index raises IndexError on
  an array of fewer than three dimensions. The parameter \<open>image\<close> is written \<open>img\<close>
  (\<open>image\<close> is a constant of HOL). The margin is a finite float.

  \<open>crop_box\<close> is the six assignments from \<open>margin_height\<close> to \<open>y1\<close>. Each is float
  arithmetic: the integers \<open>y1 - y0\<close>, \<open>x1 - x0\<close>, \<open>x0\<close>, \<open>y0\<close>, \<open>x1\<close>, \<open>y1\<close> are
  converted to floats, every product, quotient, difference and sum is rounded, numpy
  converts \<open>0\<close>, \<open>img_width\<close> and \<open>img_height\<close> to floats for the comparison (an
  array dimension is below \<open>2 ^ 63\<close>, so that conversion cannot fail), and \<open>int\<close>
  truncates.
\<close>

definition margin_message :: string where
  "margin_message = ''the margin must be a value between 0 and 1''"

definition margin_message_api :: string where
  "margin_message_api =
     ''the margin must be a value between 0 and 1 - this is a change from the existing API''"

definition crop_box ::
  "int \<Rightarrow> int \<Rightarrow> int \<Rightarrow> int \<Rightarrow> int \<Rightarrow> int \<Rightarrow> real \<Rightarrow> error + (int \<times> int \<times> int \<times> int)" where
  "crop_box img_height img_width x0 y0 x1 y1 margin =
     then_do (float_of_int (y1 - y0)) (\<lambda>box_height.
     let margin_height = f_half (round64 (box_height * margin)) in
     then_do (float_of_int (x1 - x0)) (\<lambda>box_width.
     let margin_width = f_half (round64 (box_width * margin)) in
     then_do (float_of_int x0) (\<lambda>fx0.
     then_do (py_int (np_maximum (f_sub fx0 margin_width) (Finite 0))) (\<lambda>x0'.
     then_do (float_of_int y0) (\<lambda>fy0.
     then_do (py_int (np_maximum (f_sub fy0 margin_height) (Finite 0))) (\<lambda>y0'.
     then_do (float_of_int x1) (\<lambda>fx1.
     then_do (py_int (np_minimum (f_add fx1 margin_width) (round64 (of_int img_width)))) (\<lambda>x1'.
     then_do (float_of_int y1) (\<lambda>fy1.
     then_do (py_int (np_minimum (f_add fy1 margin_height) (round64 (of_int img_height)))) (\<lambda>y1'.
     Inr (x0', y0', x1', y1')))))))))))"

definition crop ::
  "'a ndarray \<Rightarrow> int list \<Rightarrow> real \<Rightarrow> error + ('a ndarray \<times> (int \<times> int \<times> int \<times> int))" where
  "crop img bb margin =
     (if margin < 0 then Inl (ValueError margin_message)
      else if margin > 1 then Inl (ValueError margin_message_api)
      else if ndim img < 2 then Inl (IndexError ''tuple index out of range'')
      else
        (let img_height = int (shape img ! 0);
             img_width = int (shape img ! 1)
         in case take 4 bb of
              [x0, y0, x1, y1] \<Rightarrow>
                then_do (crop_box img_height img_width x0 y0 x1 y1 margin)
                  (\<lambda>(x0', y0', x1', y1').
                     if ndim img < 3 then Inl (IndexError ''too many indices for array'')
                     else Inr (slice_axis 1 x0' x1' (slice_axis 0 y0' y1' img),
                               (x0', y0', x1', y1')))
            | _ \<Rightarrow> Inl (ValueError ''not enough values to unpack'')))"

text \<open>
  A crop raises a margin error when it raises one of the two ValueErrors of the
  margin check.
\<close>

definition margin_error :: "error + 'b \<Rightarrow> bool" where
  "margin_error r =
     (r = Inl (ValueError margin_message) \<or> r = Inl (ValueError margin_message_api))"

text \<open>
  A box \<open>(x0, y0, x1, y1)\<close> lies in an image of the given width and height, corners in
  order.
\<close>

fun box_in_image :: "int \<Rightarrow> int \<Rightarrow> int \<times> int \<times> int \<times> int \<Rightarrow> bool" where
  "box_in_image width height (x0, y0, x1, y1) =
     (0 \<le> x0 \<and> x0 \<le> x1 \<and> x1 \<le> width \<and> 0 \<le> y0 \<and> y0 \<le> y1 \<and> y1 \<le> height)"

subsection \<open>Bounding-box correction\<close>

text \<open>
  \<^verbatim>\<open>
  def fix_mtcnn_bb(max_y, max_x, x1, y1, dx, dy):
      x2 = x1 + dx
      y2 = y1 + dy
      x1 = max(min(x1, max_x), 0)
      x2 = max(min(x2, max_x), 0)
      y1 = max(min(y1, max_y), 0)
      y2 = max(min(y2, max_y), 0)
      return [x1, y1, x2, y2]
  \<close>
\<close>

definition fix_mtcnn_bb :: "int \<Rightarrow> int \<Rightarrow> int \<Rightarrow> int \<Rightarrow> int \<Rightarrow> int \<Rightarrow> int list" where
  "fix_mtcnn_bb max_y max_x x1 y1 dx dy =
     (let x2 = x1 + dx;
          y2 = y1 + dy;
          x1' = max (min x1 max_x) 0;
          x2' = max (min x2 max_x) 0;
          y1' = max (min y1 max_y) 0;
          y2' = max (min y2 max_y) 0
      in [x1', y1', x2', y2'])"

text \<open>
  The two properties of a corrected box \<open>[x1, y1, x2, y2]\<close> that the specification
  talks about: every coordinate inside the image extent, and the top-left corner
  before the bottom-right one.
\<close>

fun bb_within :: "int \<Rightarrow> int \<Rightarrow> int list \<Rightarrow> bool" where
  "bb_within max_y max_x [x1, y1, x2, y2] =
     (0 \<le> x1 \<and> x1 \<le> max_x \<and> 0 \<le> x2 \<and> x2 \<le> max_x \<and>
      0 \<le> y1 \<and> y1 \<le> max_y \<and> 0 \<le> y2 \<and> y2 \<le> max_y)"
| "bb_within max_y max_x _ = False"

fun bb_ordered :: "int list \<Rightarrow> bool" where
  "bb_ordered [x1, y1, x2, y2] = (x1 \<le> x2 \<and> y1 \<le> y2)"
| "bb_ordered _ = False"

subsection \<open>Shape repair\<close>

text \<open>
  \<^verbatim>\<open>
  def add_color(image):
      w, h = image.shape
      ret = np.empty((w, h, 3), dtype=np.uint8)
      ret[:, :, 0] = ret[:, :, 1] = ret[:, :, 2] = image
      return ret
  \<close>
  The unpacking of \<open>image.shape\<close> raises ValueError unless the array has exactly two
  axes. The three assignments overwrite every element of the uninitialised buffer:
  pixel \<open>(i, j)\<close> of \<open>ret\<close> holds, in each of its three channels, the value of
  \<open>image[i, j]\<close> as the \<open>uint8\<close> buffer stores it. That conversion belongs to numpy
  and depends on the element type of the input, so it is the parameter \<open>as_uint8\<close>
  (the identity on an array that is \<open>uint8\<close> already).
\<close>

definition add_color :: "('a \<Rightarrow> 'a) \<Rightarrow> 'a ndarray \<Rightarrow> error + 'a ndarray" where
  "add_color as_uint8 img =
     (case shape img of
        [w, h] \<Rightarrow>
          Inr \<lparr>shape = [w, h, 3],
               data = concat (map (\<lambda>v. [as_uint8 v, as_uint8 v, as_uint8 v]) (data img))\<rparr>
      | [] \<Rightarrow> Inl (ValueError ''not enough values to unpack'')
      | [w] \<Rightarrow> Inl (ValueError ''not enough values to unpack'')
      | _ \<Rightarrow> Inl (ValueError ''too many values to unpack''))"

text \<open>
  \<open>image[:, :, np.newaxis]\<close> puts an axis of length 1 in third place and keeps the
  data; the two slices before it need two axes, so numpy raises IndexError on an
  array of fewer. \<open>image[:, :, 0:3]\<close> needs three axes.
\<close>

definition index_newaxis :: "'a ndarray \<Rightarrow> error + 'a ndarray" where
  "index_newaxis img =
     (if ndim img < 2 then Inl (IndexError ''too many indices for array'')
      else Inr \<lparr>shape = take 2 (shape img) @ [1] @ drop 2 (shape img), data = data img\<rparr>)"

definition index_channels :: "'a ndarray \<Rightarrow> error + 'a ndarray" where
  "index_channels img =
     (if ndim img < 3 then Inl (IndexError ''too many indices for array'')
      else Inr (slice_axis 2 0 3 img))"

text \<open>
  \<^verbatim>\<open>
  def fix_image(image):
      if image.ndim < 2:
          image = image[:, :, np.newaxis]
      if image.ndim == 2:
          image = add_color(image)
      image = image[:, :, 0:3]
      return image
  \<close>
\<close>

definition fix_image :: "('a \<Rightarrow> 'a) \<Rightarrow> 'a ndarray \<Rightarrow> error + 'a ndarray" where
  "fix_image as_uint8 img =
     (case (if ndim img < 2 then index_newaxis img else Inr img) of
        Inl e \<Rightarrow> Inl e
      | Inr img1 \<Rightarrow>
          (case (if ndim img1 = 2 then add_color as_uint8 img1 else Inr img1) of
             Inl e \<Rightarrow> Inl e
           | Inr img2 \<Rightarrow> index_channels img2))"

text \<open>
  Reading one element: \<open>a[i, j]\<close> of a two-axis array and \<open>a[i, j, k]\<close> of a
  three-axis array, for indices inside the shape.
\<close>

definition at2 :: "'a ndarray \<Rightarrow> nat \<Rightarrow> nat \<Rightarrow> 'a" where
  "at2 a i j = data a ! (i * (shape a ! 1) + j)"

definition at3 :: "'a ndarray \<Rightarrow> nat \<Rightarrow> nat \<Rightarrow> nat \<Rightarrow> 'a" where
  "at3 a i j k = data a ! ((i * (shape a ! 1) + j) * (shape a ! 2) + k)"

text \<open>
  What the specification promises of \<open>fix_image\<close>: it returns an array of three axes
  with exactly 3 channels and the height and width of its input.
\<close>

definition three_channel_result :: "'a ndarray \<Rightarrow> error + 'a ndarray \<Rightarrow> bool" where
  "three_channel_result img r =
     (case r of
        Inl e \<Rightarrow> False
      | Inr out \<Rightarrow>
          (case shape out of
             [h, w, c] \<Rightarrow> c = 3 \<and> take 2 (shape img) = [h, w]
           | _ \<Rightarrow> False))"

subsection \<open>Embedding distance\<close>

text \<open>
  Modelled from the spec: the enumeration \<open>DistanceMetric\<close> of
  \<open>facenet_sandberg.common_types\<close>, which is not among the sources. The specification
  describes it as an enumerated choice between squared-Euclidean distance and an angular
  distance.
\<close>

datatype DistanceMetric =
    EUCLIDEAN_SQUARED
  | ANGULAR_DISTANCE

text \<open>
  Python does not check the annotation of \<open>distance_metric\<close>, so the argument is a
  member of the enumeration or any other value. The function does one thing with it:
  \<open>if distance_metric == member\<close>. For a member, \<open>==\<close> is identity. For any other
  value the comparison is the value's own, and the \<open>if\<close> then takes the truth of
  the result: the test passes, fails or raises (a numpy array of several elements
  compares element by element, and the truth of the resulting array raises
  ValueError). \<open>Other outcome\<close> is such a value, described by the outcome of the test
  against each member.
\<close>

datatype selector =
    Member DistanceMetric
  | Other "DistanceMetric \<Rightarrow> error + bool"

definition test_eq :: "selector \<Rightarrow> DistanceMetric \<Rightarrow> error + bool" where
  "test_eq distance_metric member =
     (case distance_metric of
        Member m \<Rightarrow> Inr (m = member)
      | Other outcome \<Rightarrow> outcome member)"

text \<open>
  The numeric library that \<open>embedding_distance_bulk\<close> calls: sklearn's
  \<open>paired_distances\<close> with its \<open>metric\<close> keyword, numpy's \<open>square\<close> and \<open>arccos\<close>, the
  subtraction from 1 and the division by \<open>math.pi\<close> on arrays of floats. They are
  taken as parameters; \<open>paired_distances\<close> can raise.
\<close>

record ('e, 'd) numeric_library =
  paired_distances :: "'e \<Rightarrow> 'e \<Rightarrow> string \<Rightarrow> error + 'd"
  np_square :: "'d \<Rightarrow> 'd"
  np_arccos :: "'d \<Rightarrow> 'd"
  one_minus :: "'d \<Rightarrow> 'd"
  divide_by_pi :: "'d \<Rightarrow> 'd"

text \<open>
  \<^verbatim>\<open>
  def embedding_distance_bulk(embeddings1, embeddings2, distance_metric):
      if distance_metric == DistanceMetric.EUCLIDEAN_SQUARED:
          return np.square(
              paired_distances(embeddings1, embeddings2, metric='euclidean'))
      elif distance_metric == DistanceMetric.ANGULAR_DISTANCE:
          similarity = 1 - paired_distances(embeddings1, embeddings2, metric='cosine')
          return np.arccos(similarity) / math.pi
  \<close>
  A Python function whose body ends without a \<open>return\<close> returns \<open>None\<close>: the result
  is an option, and \<open>None\<close> is Python's.
\<close>

definition embedding_distance_bulk ::
  "('e, 'd) numeric_library \<Rightarrow> 'e \<Rightarrow> 'e \<Rightarrow> selector \<Rightarrow> error + 'd option" where
  "embedding_distance_bulk lib embeddings1 embeddings2 distance_metric =
     then_do (test_eq distance_metric EUCLIDEAN_SQUARED) (\<lambda>is_euclidean.
       if is_euclidean then
         then_do (paired_distances lib embeddings1 embeddings2 ''euclidean'')
           (\<lambda>d. Inr (Some (np_square lib d)))
       else
         then_do (test_eq distance_metric ANGULAR_DISTANCE) (\<lambda>is_angular.
           if is_angular then
             then_do (paired_distances lib embeddings1 embeddings2 ''cosine'')
               (\<lambda>d. let similarity = one_minus lib d
                    in Inr (Some (divide_by_pi lib (np_arccos lib similarity))))
           else Inr None))"

subsection \<open>Preprocessing\<close>

text \<open>
  \<^verbatim>\<open>
  def preprocess(image, desired_height, desired_width, margin, bbox=None, landmark=None):
      image_height, image_width = image.shape[:2]
      margin_height = int(desired_height + desired_height * margin)
      margin_width = int(desired_width + desired_width * margin)
      M = None
      if landmark is not None:
          src = np.array([[38.2946, 51.6963], ...], dtype=np.float32)
          dx = (margin_width - 112) / 2
          dy = (margin_height - 112) / 2
          src[:, 0] += dx
          src[:, 1] += dy
          points = np.asarray([[point[0], point[1]] for point in landmark.values()])
          dst = points.astype(np.float32)
          tform = trans.SimilarityTransform()
          tform.estimate(dst, src)
          M = tform.params[0:2, :]
      if bbox is None:
          # use center crop
          bbox = [0, 0, 0, 0]
          bbox[0] = int(image_height * 0.0625)
          bbox[1] = int(image_width * 0.0625)
          bbox[2] = image.shape[1] - bbox[0]
          bbox[3] = image.shape[0] - bbox[1]
      if M is None:
          cropped = crop(image, bbox, margin)[0]
          return cropped
      else:
          warped = cv2.warpAffine(image, M, (margin_height, margin_width), flags=cv2.INTER_CUBIC)
          return warped
  \<close>
  The landmark path belongs to skimage and OpenCV: \<open>estimate\<close> stands for the
  estimation of the matrix \<open>M\<close> from the landmarks and the offsets \<open>dx\<close>, \<open>dy\<close>, and
  \<open>warp_affine\<close> for \<open>cv2.warpAffine\<close>; both are parameters and both can raise. The
  unpacking of \<open>image.shape[:2]\<close> raises ValueError on an array of fewer than two axes.
  The sums and products with \<open>margin\<close> and with \<open>0.0625\<close> are float arithmetic, and
  \<open>(margin_width - 112) / 2\<close> is the rounded quotient of two integers.
\<close>

definition preprocess ::
  "('l \<Rightarrow> real \<Rightarrow> real \<Rightarrow> error + 'm) \<Rightarrow>
   ('a ndarray \<Rightarrow> 'm \<Rightarrow> int \<times> int \<Rightarrow> error + 'a ndarray) \<Rightarrow>
   'a ndarray \<Rightarrow> int \<Rightarrow> int \<Rightarrow> real \<Rightarrow> int list option \<Rightarrow> 'l option \<Rightarrow>
   error + 'a ndarray" where
  "preprocess estimate warp_affine img desired_height desired_width margin bbox landmark =
     (case take 2 (shape img) of
        [image_height, image_width] \<Rightarrow>
          then_do (float_of_int desired_height) (\<lambda>fh.
          then_do (py_int (f_add fh (round64 (fh * margin)))) (\<lambda>margin_height.
          then_do (float_of_int desired_width) (\<lambda>fw.
          then_do (py_int (f_add fw (round64 (fw * margin)))) (\<lambda>margin_width.
          then_do (case landmark of
                     None \<Rightarrow> Inr None
                   | Some points \<Rightarrow>
                       then_do (int_half (margin_width - 112)) (\<lambda>dx.
                       then_do (int_half (margin_height - 112)) (\<lambda>dy.
                       then_do (estimate points dx dy) (\<lambda>tform. Inr (Some tform))))) (\<lambda>M.
          then_do (case bbox of
                     None \<Rightarrow>
                       then_do (float_of_int (int image_height)) (\<lambda>fih.
                       then_do (py_int (round64 (fih * 0.0625))) (\<lambda>bbox0.
                       then_do (float_of_int (int image_width)) (\<lambda>fiw.
                       then_do (py_int (round64 (fiw * 0.0625))) (\<lambda>bbox1.
                       let bbox2 = int (shape img ! 1) - bbox0;
                           bbox3 = int (shape img ! 0) - bbox1
                       in Inr [bbox0, bbox1, bbox2, bbox3]))))
                   | Some given \<Rightarrow> Inr given) (\<lambda>bbox'.
          case M of
            None \<Rightarrow> then_do (crop img bbox' margin) (\<lambda>(cropped, box). Inr cropped)
          | Some tform \<Rightarrow> warp_affine img tform (margin_height, margin_width)))))))
      | _ \<Rightarrow> Inl (ValueError ''not enough values to unpack''))"

section \<open>Properties\<close>

subsection \<open>Rounding\<close>

lemma overflow_threshold_numeral [code]:
  "overflow_threshold = 179769313486231590772930519078902473361797697894230657273430081157732675805500963132708477322407536021120113879871393357658789768814416622492847430639474124377767893424865485276302219601246094119453082952085005768838150682342462881473913110540827237163350510684586298239947245938479716304835356329624224137216"
  by (simp add: overflow_threshold_def)

lemma then_do_Inr [simp]: "then_do (Inr v) f = f v"
  by (simp add: then_do_def)

lemma then_do_Inl [simp]: "then_do (Inl e) f = Inl e"
  by (simp add: then_do_def)

lemma then_do_raises:
  "then_do r f = Inl e \<longleftrightarrow> r = Inl e \<or> (\<exists>v. r = Inr v \<and> f v = Inl e)"
  by (cases r) simp_all

lemma round_half_even_le: "y \<le> of_int k \<Longrightarrow> round_half_even y \<le> k"
proof -
  assume le: "y \<le> of_int k"
  show ?thesis
  proof (cases "y = of_int k")
    case True
    then show ?thesis by (simp add: round_half_even_def)
  next
    case False
    with le have "y < of_int k" by simp
    then have "\<lfloor>y\<rfloor> < k" by (simp add: floor_less_iff)
    then show ?thesis by (simp add: round_half_even_def Let_def)
  qed
qed

lemma round_half_even_ge: "of_int k \<le> y \<Longrightarrow> k \<le> round_half_even y"
proof -
  assume "of_int k \<le> y"
  then have "k \<le> \<lfloor>y\<rfloor>" by (simp add: le_floor_iff)
  then show ?thesis by (simp add: round_half_even_def Let_def)
qed

lemma round_half_even_of_int: "round_half_even (of_int n) = n"
  by (simp add: round_half_even_def)

text \<open>The exponent search ends at the subnormal exponent or at the binade of its argument.\<close>

lemma exp_up_ge: "e \<le> exp_up a e"
proof (induction a e rule: exp_up.induct)
  case (1 a e)
  show ?case
  proof (cases "2 powi (e + 53) \<le> a")
    case True
    with 1 have "e + 1 \<le> exp_up a (e + 1)" by simp
    with True show ?thesis by (subst exp_up.simps) simp
  next
    case False
    then show ?thesis by (subst exp_up.simps) simp
  qed
qed

lemma exp_down_spec:
  "- 1074 \<le> e \<Longrightarrow>
   - 1074 \<le> exp_down a e \<and> (exp_down a e = - 1074 \<or> 2 powi (exp_down a e + 52) \<le> a)"
proof (induction a e rule: exp_down.induct)
  case (1 a e)
  show ?case
  proof (cases "- 1074 < e \<and> a < 2 powi (e + 52)")
    case True
    then have "- 1074 \<le> e - 1" by simp
    with 1 True have
      "- 1074 \<le> exp_down a (e - 1) \<and>
        (exp_down a (e - 1) = - 1074 \<or> 2 powi (exp_down a (e - 1) + 52) \<le> a)"
      by blast
    moreover have "exp_down a e = exp_down a (e - 1)"
      using True by (subst exp_down.simps) simp
    ultimately show ?thesis by simp
  next
    case False
    then have "exp_down a e = e" by (subst exp_down.simps) auto
    with False 1(2) show ?thesis by auto
  qed
qed

lemma ulp_exponent_spec:
  "- 1074 \<le> ulp_exponent x"
  "ulp_exponent x = - 1074 \<or> 2 powi (ulp_exponent x + 52) \<le> \<bar>x\<bar>"
proof -
  have "(0::int) \<le> exp_up \<bar>x\<bar> 0" by (rule exp_up_ge)
  then have "- 1074 \<le> exp_up \<bar>x\<bar> 0" by simp
  from exp_down_spec [OF this, of "\<bar>x\<bar>"]
  show "- 1074 \<le> ulp_exponent x"
    and "ulp_exponent x = - 1074 \<or> 2 powi (ulp_exponent x + 52) \<le> \<bar>x\<bar>"
    by (simp_all add: ulp_exponent_def)
qed

text \<open>
  A value \<open>k * 2 powi i\<close> with \<open>\<bar>k\<bar> \<le> 2 ^ 53\<close> and \<open>- 1074 \<le> i\<close> is a binary64 value.
  Rounding never crosses one: what lies below it is rounded to at most it, what lies
  above to at least it.
\<close>

lemma on_grid:
  assumes "e \<le> i"
  shows "of_int k * (2::real) powi i = of_int (k * 2 ^ nat (i - e)) * 2 powi e"
proof -
  have "(2::real) powi i = 2 powi ((i - e) + e)" by simp
  also have "\<dots> = 2 powi (i - e) * 2 powi e" by (subst power_int_add) simp_all
  also have "2 powi (i - e) = (2::real) ^ nat (i - e)"
    using assms by (simp add: power_int_nonneg_exp)
  finally show ?thesis by simp
qed

lemma grid_round_le:
  fixes g :: real
  assumes "x \<le> of_int K * g" and "0 < g"
  shows "of_int (round_half_even (x / g)) * g \<le> of_int K * g"
proof -
  have "x / g \<le> of_int K" using assms by (simp add: field_simps)
  then have "round_half_even (x / g) \<le> K" by (rule round_half_even_le)
  then have "(of_int (round_half_even (x / g)) :: real) \<le> of_int K" by simp
  then show ?thesis using assms(2) by simp
qed

lemma grid_round_ge:
  fixes g :: real
  assumes "of_int K * g \<le> x" and "0 < g"
  shows "of_int K * g \<le> of_int (round_half_even (x / g)) * g"
proof -
  have "of_int K \<le> x / g" using assms by (simp add: field_simps)
  then have "K \<le> round_half_even (x / g)" by (rule round_half_even_ge)
  then have "(of_int K :: real) \<le> of_int (round_half_even (x / g))" by simp
  then show ?thesis using assms(2) by simp
qed

lemma dyadic_bound:
  assumes "\<bar>k\<bar> \<le> 2 ^ 53" and "i < e"
  shows "\<bar>of_int k * (2::real) powi i\<bar> \<le> 2 powi (e + 52)"
proof -
  have "\<bar>of_int k * (2::real) powi i\<bar> = of_int \<bar>k\<bar> * 2 powi i"
    by (simp add: abs_mult)
  also have "\<dots> \<le> 2 ^ 53 * 2 powi i"
  proof -
    have "(of_int \<bar>k\<bar> :: real) \<le> of_int (2 ^ 53)" using assms(1) by (simp only: of_int_le_iff)
    then show ?thesis by simp
  qed
  also have "\<dots> = 2 powi (i + 53)" by (subst power_int_add) simp_all
  also have "\<dots> \<le> 2 powi (e + 52)"
    using assms(2) by (intro power_int_increasing) simp_all
  finally show ?thesis .
qed

lemma rounded_le:
  fixes x :: real
  assumes c: "c = of_int k * 2 powi i" and i: "- 1074 \<le> i" and k: "\<bar>k\<bar> \<le> 2 ^ 53"
    and le: "x \<le> c"
  shows "nearest_multiple (ulp_exponent x) x \<le> c"
proof -
  define e where "e = ulp_exponent x"
  define g :: real where "g = 2 powi e"
  have g: "0 < g" by (simp add: g_def)
  show ?thesis unfolding nearest_multiple_def e_def [symmetric] g_def [symmetric]
  proof (cases "e \<le> i")
    case True
    from on_grid [OF True, of k] have "c = of_int (k * 2 ^ nat (i - e)) * g"
      by (simp add: c g_def)
    with grid_round_le [of x "k * 2 ^ nat (i - e)" g] le g
    show "of_int (round_half_even (x / g)) * g \<le> c" by simp
  next
    case False
    then have ie: "i < e" by simp
    with i have "e \<noteq> - 1074" by simp
    with ulp_exponent_spec(2) [of x] have lo: "2 powi (e + 52) \<le> \<bar>x\<bar>"
      by (simp add: e_def)
    have cb: "\<bar>c\<bar> \<le> 2 powi (e + 52)" using dyadic_bound [OF k ie] by (simp add: c)
    have split: "(2::real) powi (e + 52) = of_int (2 ^ 52) * g"
      by (subst power_int_add) (simp_all add: g_def)
    show "of_int (round_half_even (x / g)) * g \<le> c"
    proof (cases "x < 0")
      case True
      with lo have "x \<le> of_int (- (2 ^ 52)) * g" by (simp add: split)
      from grid_round_le [OF this g]
      have "of_int (round_half_even (x / g)) * g \<le> - (2 powi (e + 52))"
        by (simp add: split)
      with cb show ?thesis by linarith
    next
      case False
      with lo le cb have "x = 2 powi (e + 52)" and "c = x" by linarith+
      then have xg: "x = of_int (2 ^ 52) * g" by (simp add: split)
      then have "x / g = of_int (2 ^ 52)" using g by simp
      then have "round_half_even (x / g) = 2 ^ 52"
        by (simp only: round_half_even_of_int)
      then show ?thesis using xg \<open>c = x\<close> by simp
    qed
  qed
qed

lemma rounded_ge:
  fixes x :: real
  assumes c: "c = of_int k * 2 powi i" and i: "- 1074 \<le> i" and k: "\<bar>k\<bar> \<le> 2 ^ 53"
    and le: "c \<le> x"
  shows "c \<le> nearest_multiple (ulp_exponent x) x"
proof -
  define e where "e = ulp_exponent x"
  define g :: real where "g = 2 powi e"
  have g: "0 < g" by (simp add: g_def)
  show ?thesis unfolding nearest_multiple_def e_def [symmetric] g_def [symmetric]
  proof (cases "e \<le> i")
    case True
    from on_grid [OF True, of k] have "c = of_int (k * 2 ^ nat (i - e)) * g"
      by (simp add: c g_def)
    with grid_round_ge [of "k * 2 ^ nat (i - e)" g x] le g
    show "c \<le> of_int (round_half_even (x / g)) * g" by simp
  next
    case False
    then have ie: "i < e" by simp
    with i have "e \<noteq> - 1074" by simp
    with ulp_exponent_spec(2) [of x] have lo: "2 powi (e + 52) \<le> \<bar>x\<bar>"
      by (simp add: e_def)
    have cb: "\<bar>c\<bar> \<le> 2 powi (e + 52)" using dyadic_bound [OF k ie] by (simp add: c)
    have split: "(2::real) powi (e + 52) = of_int (2 ^ 52) * g"
      by (subst power_int_add) (simp_all add: g_def)
    show "c \<le> of_int (round_half_even (x / g)) * g"
    proof (cases "0 < x")
      case True
      with lo have "of_int (2 ^ 52) * g \<le> x" by (simp add: split)
      from grid_round_ge [OF this g]
      have "2 powi (e + 52) \<le> of_int (round_half_even (x / g)) * g"
        by (simp add: split)
      with cb show ?thesis by linarith
    next
      case False
      with lo le cb have "x = - (2 powi (e + 52))" and "c = x" by linarith+
      then have xg: "x = of_int (- (2 ^ 52)) * g" by (simp add: split)
      then have "x / g = of_int (- (2 ^ 52))" using g by simp
      then have "round_half_even (x / g) = - (2 ^ 52)"
        by (simp only: round_half_even_of_int)
      then show ?thesis using xg \<open>c = x\<close> by simp
    qed
  qed
qed

lemma round64_le:
  assumes "c = of_int k * 2 powi i" and "- 1074 \<le> i" and "\<bar>k\<bar> \<le> 2 ^ 53"
    and "c < 2 ^ 1024" and "x \<le> c"
  shows "f_le (round64 x) (Finite c)"
  using rounded_le [OF assms(1,2,3,5)] assms(4)
  by (simp add: round64_def or_infinity_def overflow_threshold_def)

lemma round64_ge:
  assumes "c = of_int k * 2 powi i" and "- 1074 \<le> i" and "\<bar>k\<bar> \<le> 2 ^ 53"
    and "- (2 ^ 1024) < c" and "c \<le> x"
  shows "f_le (Finite c) (round64 x)"
  using rounded_ge [OF assms(1,2,3,5)] assms(4)
  by (simp add: round64_def or_infinity_def overflow_threshold_def)

lemma round64_exact:
  assumes "c = of_int k * 2 powi i" and "- 1074 \<le> i" and "\<bar>k\<bar> \<le> 2 ^ 53"
    and "\<bar>c\<bar> < 2 ^ 1024"
  shows "round64 c = Finite c"
proof -
  have up: "c < 2 ^ 1024" and lo: "- (2 ^ 1024) < c"
    using assms(4) by linarith+
  have "f_le (round64 c) (Finite c)"
    by (rule round64_le [OF assms(1,2,3) up]) simp
  moreover have "f_le (Finite c) (round64 c)"
    by (rule round64_ge [OF assms(1,2,3) lo]) simp
  ultimately show ?thesis by (cases "round64 c") simp_all
qed

text \<open>The integers up to \<open>2 ^ 53\<close> in size are binary64 values.\<close>

lemma small_int:
  assumes "\<bar>n\<bar> \<le> 2 ^ 53"
  shows "\<bar>real_of_int n\<bar> < 2 ^ 1024"
proof -
  have "\<bar>real_of_int n\<bar> \<le> 2 ^ 53"
    using assms by (metis of_int_abs of_int_le_iff of_int_numeral of_int_power)
  also have "(2::real) ^ 53 < 2 ^ 1024" by simp
  finally show ?thesis .
qed

lemma round64_int_le:
  assumes "\<bar>n\<bar> \<le> 2 ^ 53" and "x \<le> of_int n"
  shows "f_le (round64 x) (Finite (of_int n))"
proof (rule round64_le [where k = n and i = 0])
  show "real_of_int n = of_int n * 2 powi 0" by simp
  show "real_of_int n < 2 ^ 1024" using small_int [OF assms(1)] by linarith
qed (use assms in simp_all)

lemma round64_int_ge:
  assumes "\<bar>n\<bar> \<le> 2 ^ 53" and "of_int n \<le> x"
  shows "f_le (Finite (of_int n)) (round64 x)"
proof (rule round64_ge [where k = n and i = 0])
  show "real_of_int n = of_int n * 2 powi 0" by simp
  show "- (2 ^ 1024) < real_of_int n" using small_int [OF assms(1)] by linarith
qed (use assms in simp_all)

lemma round64_int:
  assumes "\<bar>n\<bar> \<le> 2 ^ 53"
  shows "round64 (of_int n) = Finite (of_int n)"
proof -
  have "f_le (round64 (of_int n)) (Finite (of_int n))"
    by (rule round64_int_le [OF assms]) simp
  moreover have "f_le (Finite (of_int n)) (round64 (of_int n))"
    by (rule round64_int_ge [OF assms]) simp
  ultimately show ?thesis by (cases "round64 (real_of_int n)") simp_all
qed

lemma float_of_int_exact: "\<bar>n\<bar> \<le> 2 ^ 53 \<Longrightarrow> float_of_int n = Inr (of_int n)"
  by (simp add: float_of_int_def round64_int)

lemma between_ints:
  assumes "\<bar>lo\<bar> \<le> 2 ^ 53" and "\<bar>hi\<bar> \<le> 2 ^ 53"
    and "of_int lo \<le> x" and "x \<le> of_int hi"
  obtains r where "round64 x = Finite r" and "of_int lo \<le> r" and "r \<le> of_int hi"
proof -
  have "f_le (Finite (of_int lo)) (round64 x)" and "f_le (round64 x) (Finite (of_int hi))"
    using assms by (simp_all add: round64_int_ge round64_int_le)
  then show ?thesis using that by (cases "round64 x") simp_all
qed

subsection \<open>Cropping\<close>

lemma toward_zero_nonneg: "0 \<le> x \<Longrightarrow> toward_zero x = \<lfloor>x\<rfloor>"
  by (simp add: toward_zero_def)

lemma float_of_int_raises: "float_of_int n = Inl e \<Longrightarrow> \<exists>s. e = OverflowError s"
  by (auto simp add: float_of_int_def split: float64.splits)

lemma py_int_raises: "py_int x = Inl e \<Longrightarrow> \<exists>s. e = OverflowError s"
  by (auto simp add: py_int_def split: float64.splits)

lemma crop_box_raises:
  "crop_box img_height img_width x0 y0 x1 y1 margin = Inl e \<Longrightarrow> \<exists>s. e = OverflowError s"
  by (auto simp add: crop_box_def Let_def then_do_raises
      dest: float_of_int_raises py_int_raises)

text \<open>Evaluating the rounding at small integers.\<close>

lemma round64_numeral:
  "numeral k \<le> (2 ^ 53 :: int) \<Longrightarrow> round64 (numeral k) = Finite (numeral k)"
  using round64_int [of "numeral k"] by simp

lemma round64_0: "round64 0 = Finite 0"
  using round64_int [of 0] by simp

lemma round64_1: "round64 1 = Finite 1"
  using round64_int [of 1] by simp

lemmas evaluate_float =
  float_of_int_exact round64_numeral round64_0 round64_1
  np_maximum_def np_minimum_def py_int_def toward_zero_def

text \<open>
  For a box side of at most \<open>2 ^ 53\<close> pixels and a margin in \<open>[0, 1]\<close>, the half
  margin is a finite float between 0 and the side.
\<close>

lemma margin_half:
  assumes "0 \<le> d" and "d \<le> 2 ^ 53" and "0 \<le> margin" and "margin \<le> 1"
  obtains m where "f_half (round64 (of_int d * margin)) = Finite m"
    and "0 \<le> m" and "m \<le> of_int d"
proof -
  have d: "\<bar>d\<bar> \<le> 2 ^ 53" and z: "\<bar>0::int\<bar> \<le> 2 ^ 53" using assms by simp_all
  have "of_int 0 \<le> of_int d * margin" using assms by simp
  moreover have "of_int d * margin \<le> of_int d"
    using assms by (simp add: mult_left_le)
  ultimately obtain p where p: "round64 (of_int d * margin) = Finite p"
    "of_int 0 \<le> p" "p \<le> of_int d"
    by (rule between_ints [OF z d])
  then have "of_int 0 \<le> p / 2" and "p / 2 \<le> of_int d" using assms(1) by simp_all
  then obtain m where "round64 (p / 2) = Finite m" "of_int 0 \<le> m" "m \<le> of_int d"
    by (rule between_ints [OF z d])
  with p(1) that show ?thesis by simp
qed

text \<open>
  The corner that moves towards the origin stays between \<open>0\<close> and where it was; the
  corner that moves away stays between where it was and the image bound.
\<close>

lemma shrink_corner:
  assumes "0 \<le> c" and "c \<le> 2 ^ 53" and "0 \<le> m"
  obtains v where "py_int (np_maximum (f_sub (of_int c) (Finite m)) (Finite 0)) = Inr v"
    and "0 \<le> v" and "v \<le> c"
proof -
  have c: "\<bar>c\<bar> \<le> 2 ^ 53" using assms by simp
  have le: "f_le (round64 (of_int c - m)) (Finite (of_int c))"
    using assms by (intro round64_int_le [OF c]) simp
  show ?thesis
  proof (cases "round64 (of_int c - m)")
    case NegInf
    then have "py_int (np_maximum (f_sub (of_int c) (Finite m)) (Finite 0)) = Inr 0"
      by (simp add: np_maximum_def py_int_def toward_zero_def)
    with assms(1) that show ?thesis by blast
  next
    case (Finite a)
    with le have a: "a \<le> of_int c" by simp
    show ?thesis
    proof (cases "a \<le> 0")
      case True
      with Finite have "py_int (np_maximum (f_sub (of_int c) (Finite m)) (Finite 0)) = Inr 0"
        by (simp add: np_maximum_def py_int_def toward_zero_def)
      with assms(1) that show ?thesis by blast
    next
      case False
      with Finite have "py_int (np_maximum (f_sub (of_int c) (Finite m)) (Finite 0)) = Inr \<lfloor>a\<rfloor>"
        by (simp add: np_maximum_def py_int_def toward_zero_def)
      moreover have "0 \<le> \<lfloor>a\<rfloor>" using False by simp
      moreover have "\<lfloor>a\<rfloor> \<le> c" using a by (simp add: floor_le_iff)
      ultimately show ?thesis using that by blast
    qed
  next
    case PosInf
    with le show ?thesis by simp
  qed
qed

lemma grow_corner:
  assumes "0 \<le> c" and "c \<le> bound" and "bound \<le> 2 ^ 53" and "0 \<le> m"
  obtains v where
    "py_int (np_minimum (f_add (of_int c) (Finite m)) (round64 (of_int bound))) = Inr v"
    and "c \<le> v" and "v \<le> bound"
proof -
  have c: "\<bar>c\<bar> \<le> 2 ^ 53" and b: "\<bar>bound\<bar> \<le> 2 ^ 53" using assms by simp_all
  have bound: "round64 (of_int bound) = Finite (of_int bound)"
    by (rule round64_int [OF b])
  have ge: "f_le (Finite (of_int c)) (round64 (of_int c + m))"
    using assms by (intro round64_int_ge [OF c]) simp
  show ?thesis
  proof (cases "round64 (of_int c + m)")
    case NegInf
    with ge show ?thesis by simp
  next
    case (Finite a)
    with ge have a: "of_int c \<le> a" by simp
    then have a0: "0 \<le> a" using assms(1) by (meson of_int_0_le_iff order_trans)
    show ?thesis
    proof (cases "a \<le> of_int bound")
      case True
      with Finite bound a0
      have "py_int (np_minimum (f_add (of_int c) (Finite m)) (round64 (of_int bound)))
              = Inr \<lfloor>a\<rfloor>"
        by (simp add: np_minimum_def py_int_def toward_zero_nonneg)
      moreover have "c \<le> \<lfloor>a\<rfloor>" using a by (simp add: le_floor_iff)
      moreover have "\<lfloor>a\<rfloor> \<le> bound" using True by (simp add: floor_le_iff)
      ultimately show ?thesis using that by blast
    next
      case False
      with Finite bound assms(1,2)
      have "py_int (np_minimum (f_add (of_int c) (Finite m)) (round64 (of_int bound)))
              = Inr bound"
        by (simp add: np_minimum_def py_int_def toward_zero_nonneg)
      with assms(2) that show ?thesis by blast
    qed
  next
    case PosInf
    with bound assms(1,2)
    have "py_int (np_minimum (f_add (of_int c) (Finite m)) (round64 (of_int bound)))
            = Inr bound"
      by (simp add: np_minimum_def py_int_def toward_zero_nonneg)
    with assms(2) that show ?thesis by blast
  qed
qed

lemma crop_box_bounds:
  assumes "0 \<le> margin" and "margin \<le> 1"
    and "img_width \<le> 2 ^ 53" and "img_height \<le> 2 ^ 53"
    and "0 \<le> x0" and "x0 \<le> x1" and "x1 \<le> img_width"
    and "0 \<le> y0" and "y0 \<le> y1" and "y1 \<le> img_height"
  obtains a b c d where "crop_box img_height img_width x0 y0 x1 y1 margin = Inr (a, b, c, d)"
    and "0 \<le> a" and "a \<le> x0" and "x1 \<le> c" and "c \<le> img_width"
    and "0 \<le> b" and "b \<le> y0" and "y1 \<le> d" and "d \<le> img_height"
proof -
  have sizes: "\<bar>y1 - y0\<bar> \<le> 2 ^ 53" "\<bar>x1 - x0\<bar> \<le> 2 ^ 53"
    "\<bar>x0\<bar> \<le> 2 ^ 53" "\<bar>y0\<bar> \<le> 2 ^ 53" "\<bar>x1\<bar> \<le> 2 ^ 53" "\<bar>y1\<bar> \<le> 2 ^ 53"
    using assms by simp_all
  obtain mh where mh: "f_half (round64 (of_int (y1 - y0) * margin)) = Finite mh" "0 \<le> mh"
    using margin_half [of "y1 - y0" margin] assms by auto
  obtain mw where mw: "f_half (round64 (of_int (x1 - x0) * margin)) = Finite mw" "0 \<le> mw"
    using margin_half [of "x1 - x0" margin] assms by auto
  obtain a where a: "py_int (np_maximum (f_sub (of_int x0) (Finite mw)) (Finite 0)) = Inr a"
    "0 \<le> a" "a \<le> x0"
    using shrink_corner [of x0 mw] assms mw(2) by auto
  obtain b where b: "py_int (np_maximum (f_sub (of_int y0) (Finite mh)) (Finite 0)) = Inr b"
    "0 \<le> b" "b \<le> y0"
    using shrink_corner [of y0 mh] assms mh(2) by auto
  obtain c where c:
    "py_int (np_minimum (f_add (of_int x1) (Finite mw)) (round64 (of_int img_width))) = Inr c"
    "x1 \<le> c" "c \<le> img_width"
    using grow_corner [of x1 img_width mw] assms mw(2) by auto
  obtain d where d:
    "py_int (np_minimum (f_add (of_int y1) (Finite mh)) (round64 (of_int img_height))) = Inr d"
    "y1 \<le> d" "d \<le> img_height"
    using grow_corner [of y1 img_height mh] assms mh(2) by auto
  have "crop_box img_height img_width x0 y0 x1 y1 margin = Inr (a, b, c, d)"
    using sizes mh(1) mw(1) a(1) b(1) c(1) d(1)
    by (simp add: crop_box_def float_of_int_exact)
  with a b c d that show ?thesis by blast
qed

text \<open>With a margin of 0 the half margins are 0 and no corner moves.\<close>

lemma crop_box_margin_zero:
  assumes "img_width \<le> 2 ^ 53" and "img_height \<le> 2 ^ 53"
    and "0 \<le> x0" and "x0 \<le> x1" and "x1 \<le> img_width"
    and "0 \<le> y0" and "y0 \<le> y1" and "y1 \<le> img_height"
  shows "crop_box img_height img_width x0 y0 x1 y1 0 = Inr (x0, y0, x1, y1)"
proof -
  have sizes: "\<bar>y1 - y0\<bar> \<le> 2 ^ 53" "\<bar>x1 - x0\<bar> \<le> 2 ^ 53"
    "\<bar>x0\<bar> \<le> 2 ^ 53" "\<bar>y0\<bar> \<le> 2 ^ 53" "\<bar>x1\<bar> \<le> 2 ^ 53" "\<bar>y1\<bar> \<le> 2 ^ 53"
    "\<bar>img_width\<bar> \<le> 2 ^ 53" "\<bar>img_height\<bar> \<le> 2 ^ 53"
    using assms by simp_all
  have zero: "round64 0 = Finite 0" using round64_int [of 0] by simp
  have same: "round64 (real_of_int n) = Finite (real_of_int n)" if "\<bar>n\<bar> \<le> 2 ^ 53" for n
    using that by (rule round64_int)
  have lo: "py_int (np_maximum (Finite (real_of_int n)) (Finite 0)) = Inr n" if "0 \<le> n" for n
    using that by (simp add: np_maximum_def py_int_def toward_zero_def)
  have hi: "py_int (np_minimum (Finite (real_of_int n)) (Finite (real_of_int k))) = Inr n"
    if "0 \<le> n" "n \<le> k" for n k
    using that by (simp add: np_minimum_def py_int_def toward_zero_def)
  show ?thesis
    using sizes assms
    by (simp add: crop_box_def float_of_int_exact zero same lo hi)
qed

lemma three_axes:
  assumes "shape img = H # W # rest" and "rest \<noteq> []"
  shows "\<not> ndim img < 2" and "\<not> ndim img < 3" and "shape img ! 0 = H" and "shape img ! 1 = W"
  using assms by (cases rest; simp add: ndim_def)+

lemma crop_unfold:
  assumes "shape img = H # W # rest" and "rest \<noteq> []"
    and "take 4 bb = [x0, y0, x1, y1]" and "0 \<le> margin" and "margin \<le> 1"
  shows "crop img bb margin =
           then_do (crop_box (int H) (int W) x0 y0 x1 y1 margin)
             (\<lambda>(a, b, c, d). Inr (slice_axis 1 a c (slice_axis 0 b d img), (a, b, c, d)))"
  using assms(3,4,5) three_axes [OF assms(1,2)]
  by (simp add: crop_def Let_def)

lemma crop_without_margin:
  assumes "shape img = H # W # rest" and "rest \<noteq> []"
    and "H \<le> 2 ^ 53" and "W \<le> 2 ^ 53"
    and "take 4 bb = [x0, y0, x1, y1]"
    and "0 \<le> x0" and "x0 \<le> x1" and "x1 \<le> int W"
    and "0 \<le> y0" and "y0 \<le> y1" and "y1 \<le> int H"
  shows "crop img bb 0 =
           Inr (slice_axis 1 x0 x1 (slice_axis 0 y0 y1 img), (x0, y0, x1, y1))"
proof -
  have "int W \<le> 2 ^ 53" and "int H \<le> 2 ^ 53"
    using assms(3,4) by simp_all
  then have "crop_box (int H) (int W) x0 y0 x1 y1 0 = Inr (x0, y0, x1, y1)"
    using assms by (intro crop_box_margin_zero) simp_all
  then show ?thesis
    using crop_unfold [OF assms(1,2,5), of 0] by simp
qed

text \<open>
  C1. For every image, every box and every margin strictly less than 0 or strictly
  greater than 1, \<open>crop\<close> raises a ValueError, one of the two of its margin check; for
  every margin in \<open>[0, 1]\<close> it raises no margin error.
\<close>

theorem crop_margin_check:
  "(margin < 0 \<or> 1 < margin \<longrightarrow>
      margin_error (crop img bb margin) \<and> (\<exists>msg. crop img bb margin = Inl (ValueError msg))) \<and>
   (0 \<le> margin \<and> margin \<le> 1 \<longrightarrow> \<not> margin_error (crop img bb margin))"
proof (rule conjI; rule impI)
  assume "margin < 0 \<or> 1 < margin"
  then show "margin_error (crop img bb margin) \<and> (\<exists>msg. crop img bb margin = Inl (ValueError msg))"
    by (auto simp add: crop_def margin_error_def)
next
  assume range: "0 \<le> margin \<and> margin \<le> 1"
  have "msg = ''not enough values to unpack''"
    if "crop img bb margin = Inl (ValueError msg)" for msg
    using that range
    by (auto simp add: crop_def Let_def then_do_raises
        split: if_splits list.splits dest: crop_box_raises)
  then show "\<not> margin_error (crop img bb margin)"
    by (auto simp add: margin_error_def margin_message_def margin_message_api_def)
qed

theorem crop_margin_check_witness:
  "(- 1 / 2 :: real) < 0 \<and>
   margin_error (crop \<lparr>shape = [2, 4, 1], data = [0, 1, 2, 3, 4, 5, 6, 7 :: nat]\<rparr> [1, 0, 3, 2] (- 1 / 2)) \<and>
   (1 :: real) < 3 / 2 \<and>
   margin_error (crop \<lparr>shape = [2, 4, 1], data = [0, 1, 2, 3, 4, 5, 6, 7 :: nat]\<rparr> [1, 0, 3, 2] (3 / 2)) \<and>
   (0 :: real) \<le> 1 / 2 \<and> (1 / 2 :: real) \<le> 1 \<and>
   \<not> margin_error (crop \<lparr>shape = [2, 4, 1], data = [0, 1, 2, 3, 4, 5, 6, 7 :: nat]\<rparr> [1, 0, 3, 2] (1 / 2))"
  using
    crop_margin_check [of "- 1 / 2" "\<lparr>shape = [2, 4, 1], data = [0, 1, 2, 3, 4, 5, 6, 7 :: nat]\<rparr>" "[1, 0, 3, 2]"]
    crop_margin_check [of "3 / 2" "\<lparr>shape = [2, 4, 1], data = [0, 1, 2, 3, 4, 5, 6, 7 :: nat]\<rparr>" "[1, 0, 3, 2]"]
    crop_margin_check [of "1 / 2" "\<lparr>shape = [2, 4, 1], data = [0, 1, 2, 3, 4, 5, 6, 7 :: nat]\<rparr>" "[1, 0, 3, 2]"]
  by simp

text \<open>
  C2 (amended). For every image of height \<open>H\<close> and width \<open>W\<close>, both at most
  \<open>2 ^ 53\<close> (an array of at least three axes, as \<open>crop\<close> indexes it), every margin in
  \<open>[0, 1]\<close> and every bounding box \<open>(x0, y0, x1, y1)\<close> with \<open>0 \<le> x0 \<le> x1 \<le> W\<close> and
  \<open>0 \<le> y0 \<le> y1 \<le> H\<close>, \<open>crop\<close> returns, and the box it returns satisfies
  \<open>0 \<le> x0' \<le> x1' \<le> W\<close> and \<open>0 \<le> y0' \<le> y1' \<le> H\<close>.
\<close>

theorem crop_box_in_image:
  assumes "0 \<le> margin" and "margin \<le> 1"
    and "shape img = H # W # rest" and "rest \<noteq> []"
    and "H \<le> 2 ^ 53" and "W \<le> 2 ^ 53"
    and "take 4 bb = [x0, y0, x1, y1]"
    and "0 \<le> x0" and "x0 \<le> x1" and "x1 \<le> int W"
    and "0 \<le> y0" and "y0 \<le> y1" and "y1 \<le> int H"
  shows "\<exists>cropped box. crop img bb margin = Inr (cropped, box) \<and>
           box_in_image (int W) (int H) box"
proof -
  have "int W \<le> 2 ^ 53" and "int H \<le> 2 ^ 53"
    using assms(5,6) by simp_all
  then obtain a b c d where
    box: "crop_box (int H) (int W) x0 y0 x1 y1 margin = Inr (a, b, c, d)"
    and "0 \<le> a" "a \<le> x0" "x1 \<le> c" "c \<le> int W"
    and "0 \<le> b" "b \<le> y0" "y1 \<le> d" "d \<le> int H"
    using crop_box_bounds [of margin "int W" "int H" x0 x1 y0 y1] assms by blast
  then have "box_in_image (int W) (int H) (a, b, c, d)"
    using assms by simp
  moreover have "crop img bb margin =
      Inr (slice_axis 1 a c (slice_axis 0 b d img), (a, b, c, d))"
    using crop_unfold [OF assms(3,4,7,1,2)] box by simp
  ultimately show ?thesis by blast
qed

theorem crop_box_in_image_witness:
  "(0 :: real) \<le> 3602879701896397 / 36028797018963968 \<and>
   (3602879701896397 / 36028797018963968 :: real) \<le> 1 \<and>
   (\<exists>cropped box.
      crop \<lparr>shape = [40, 40, 1], data = replicate 1600 (0 :: nat)\<rparr> [2, 2, 22, 22]
        (3602879701896397 / 36028797018963968)
        = Inr (cropped, box) \<and> box_in_image (int 40) (int 40) box) \<and>
   crop \<lparr>shape = [40, 40, 1], data = replicate 1600 (0 :: nat)\<rparr> [2, 2, 22, 22]
     (3602879701896397 / 36028797018963968)
     = Inr (slice_axis 1 1 23 (slice_axis 0 1 23 \<lparr>shape = [40, 40, 1], data = replicate 1600 (0 :: nat)\<rparr>),
            (1, 1, 23, 23))"
proof -
  have returned:
    "\<exists>cropped box.
       crop \<lparr>shape = [40, 40, 1], data = replicate 1600 (0 :: nat)\<rparr> [2, 2, 22, 22]
         (3602879701896397 / 36028797018963968)
         = Inr (cropped, box) \<and> box_in_image (int 40) (int 40) box"
    by (rule crop_box_in_image [where H = 40 and W = 40 and rest = "[1]"
          and ?x0.0 = 2 and ?y0.0 = 2 and ?x1.0 = 22 and ?y1.0 = 22]) simp_all
  have product: "round64 (20 * (3602879701896397 / 36028797018963968)) = Finite 2"
    by code_simp
  have box: "crop_box (int 40) (int 40) 2 2 22 22 (3602879701896397 / 36028797018963968)
               = Inr (1, 1, 23, 23)"
    using product by (simp add: crop_box_def evaluate_float)
  have "crop \<lparr>shape = [40, 40, 1], data = replicate 1600 (0 :: nat)\<rparr> [2, 2, 22, 22]
          (3602879701896397 / 36028797018963968)
        = then_do (crop_box (int 40) (int 40) 2 2 22 22 (3602879701896397 / 36028797018963968))
            (\<lambda>(a, b, c, d). Inr (slice_axis 1 a c (slice_axis 0 b d
               \<lparr>shape = [40, 40, 1], data = replicate 1600 (0 :: nat)\<rparr>), (a, b, c, d)))"
    by (rule crop_unfold [where H = 40 and W = 40 and rest = "[1]"]) simp_all
  then have evaluated:
    "crop \<lparr>shape = [40, 40, 1], data = replicate 1600 (0 :: nat)\<rparr> [2, 2, 22, 22]
       (3602879701896397 / 36028797018963968)
       = Inr (slice_axis 1 1 23 (slice_axis 0 1 23 \<lparr>shape = [40, 40, 1], data = replicate 1600 (0 :: nat)\<rparr>),
              (1, 1, 23, 23))"
    by (simp only: box then_do_Inr prod.case)
  show ?thesis using returned evaluated by simp
qed

text \<open>
  C2 as stated covers every width and height. Above \<open>2 ^ 53\<close> not every integer is
  a float: the width \<open>2 ^ 53 + 3\<close> becomes \<open>2 ^ 53 + 4\<close> when numpy compares it with
  \<open>x1 + margin_width\<close>, and so does \<open>x1 = 2 ^ 53 + 3\<close>, so the returned \<open>x1'\<close> lies
  one pixel outside the image.
\<close>

theorem crop_box_in_image_counterexample:
  "crop \<lparr>shape = [1, 9007199254740995, 1], data = replicate 9007199254740995 (0 :: nat)\<rparr>
     [0, 0, 9007199254740995, 1] 0
     = Inr (slice_axis 1 0 9007199254740996 (slice_axis 0 0 1
              \<lparr>shape = [1, 9007199254740995, 1], data = replicate 9007199254740995 (0 :: nat)\<rparr>),
            (0, 0, 9007199254740996, 1)) \<and>
   \<not> box_in_image (int 9007199254740995) (int 1) (0, 0, 9007199254740996, 1)"
proof -
  have "round64 9007199254740995 = Finite 9007199254740996"
    and "round64 9007199254740996 = Finite 9007199254740996"
    by code_simp+
  then have box: "crop_box (int 1) (int 9007199254740995) 0 0 9007199254740995 1 0
               = Inr (0, 0, 9007199254740996, 1)"
    by (simp add: crop_box_def float_of_int_def round64_0 round64_1 np_maximum_def
        np_minimum_def py_int_def toward_zero_def)
  have "crop \<lparr>shape = [1, 9007199254740995, 1], data = replicate 9007199254740995 (0 :: nat)\<rparr>
          [0, 0, 9007199254740995, 1] 0
        = then_do (crop_box (int 1) (int 9007199254740995) 0 0 9007199254740995 1 0)
            (\<lambda>(a, b, c, d). Inr (slice_axis 1 a c (slice_axis 0 b d
               \<lparr>shape = [1, 9007199254740995, 1],
                data = replicate 9007199254740995 (0 :: nat)\<rparr>), (a, b, c, d)))"
    by (rule crop_unfold [where rest = "[1]"]) simp_all
  then show ?thesis by (simp only: box then_do_Inr prod.case) simp
qed

text \<open>
  C10 (amended). For every image of height \<open>H\<close> and width \<open>W\<close>, both at most
  \<open>2 ^ 53\<close> (an array of at least three axes), and every integer bounding box
  \<open>(x0, y0, x1, y1)\<close> with \<open>0 \<le> x0 \<le> x1 \<le> W\<close> and \<open>0 \<le> y0 \<le> y1 \<le> H\<close>,
  \<open>crop(image, bb, 0)\<close> returns the box \<open>(x0, y0, x1, y1)\<close> unchanged, together with
  \<open>image[y0:y1, x0:x1, :]\<close>.
\<close>

theorem crop_margin_zero:
  assumes "shape img = H # W # rest" and "rest \<noteq> []"
    and "H \<le> 2 ^ 53" and "W \<le> 2 ^ 53"
    and "take 4 bb = [x0, y0, x1, y1]"
    and "0 \<le> x0" and "x0 \<le> x1" and "x1 \<le> int W"
    and "0 \<le> y0" and "y0 \<le> y1" and "y1 \<le> int H"
  shows "crop img bb 0 =
           Inr (slice_axis 1 x0 x1 (slice_axis 0 y0 y1 img), (x0, y0, x1, y1))"
  using assms by (rule crop_without_margin)

theorem crop_margin_zero_witness:
  "crop \<lparr>shape = [2, 4, 1], data = [0, 1, 2, 3, 4, 5, 6, 7 :: nat]\<rparr> [1, 0, 3, 2] 0
     = Inr (slice_axis 1 1 3 (slice_axis 0 0 2
              \<lparr>shape = [2, 4, 1], data = [0, 1, 2, 3, 4, 5, 6, 7 :: nat]\<rparr>), (1, 0, 3, 2)) \<and>
   slice_axis 1 1 3 (slice_axis 0 0 2 \<lparr>shape = [2, 4, 1], data = [0, 1, 2, 3, 4, 5, 6, 7 :: nat]\<rparr>)
     = \<lparr>shape = [2, 2, 1], data = [1, 2, 5, 6]\<rparr>"
proof -
  have returned:
    "crop \<lparr>shape = [2, 4, 1], data = [0, 1, 2, 3, 4, 5, 6, 7 :: nat]\<rparr> [1, 0, 3, 2] 0
       = Inr (slice_axis 1 1 3 (slice_axis 0 0 2
                \<lparr>shape = [2, 4, 1], data = [0, 1, 2, 3, 4, 5, 6, 7 :: nat]\<rparr>), (1, 0, 3, 2))"
    by (rule crop_margin_zero [where H = 2 and W = 4 and rest = "[1]"]) simp_all
  have evaluated:
    "slice_axis 1 1 3 (slice_axis 0 0 2 \<lparr>shape = [2, 4, 1], data = [0, 1, 2, 3, 4, 5, 6, 7 :: nat]\<rparr>)
       = \<lparr>shape = [2, 2, 1], data = [1, 2, 5, 6]\<rparr>"
    by code_simp
  show ?thesis using returned evaluated by simp
qed

text \<open>
  C10 as stated covers every width and height. On an image of height
  \<open>2 ^ 53 + 3\<close> the box \<open>(0, 0, 1, 2 ^ 53 + 3)\<close> is in bounds, and with a margin of 0
  the sum \<open>y1 + 0.0\<close> is already the float \<open>2 ^ 53 + 4\<close>: the box comes back changed.
\<close>

theorem crop_margin_zero_counterexample:
  "crop \<lparr>shape = [9007199254740995, 1, 1], data = replicate 9007199254740995 (0 :: nat)\<rparr>
     [0, 0, 1, 9007199254740995] 0
     = Inr (slice_axis 1 0 1 (slice_axis 0 0 9007199254740996
              \<lparr>shape = [9007199254740995, 1, 1], data = replicate 9007199254740995 (0 :: nat)\<rparr>),
            (0, 0, 1, 9007199254740996)) \<and>
   (0, 0, 1, 9007199254740996) \<noteq> (0, 0, 1, 9007199254740995 :: int)"
proof -
  have "round64 9007199254740995 = Finite 9007199254740996"
    and "round64 9007199254740996 = Finite 9007199254740996"
    by code_simp+
  then have box: "crop_box (int 9007199254740995) (int 1) 0 0 1 9007199254740995 0
               = Inr (0, 0, 1, 9007199254740996)"
    by (simp add: crop_box_def float_of_int_def round64_0 round64_1 np_maximum_def
        np_minimum_def py_int_def toward_zero_def)
  have "crop \<lparr>shape = [9007199254740995, 1, 1], data = replicate 9007199254740995 (0 :: nat)\<rparr>
          [0, 0, 1, 9007199254740995] 0
        = then_do (crop_box (int 9007199254740995) (int 1) 0 0 1 9007199254740995 0)
            (\<lambda>(a, b, c, d). Inr (slice_axis 1 a c (slice_axis 0 b d
               \<lparr>shape = [9007199254740995, 1, 1],
                data = replicate 9007199254740995 (0 :: nat)\<rparr>), (a, b, c, d)))"
    by (rule crop_unfold [where rest = "[1]"]) simp_all
  then show ?thesis by (simp only: box then_do_Inr prod.case) simp
qed

subsection \<open>Bounding-box correction\<close>

text \<open>
  C6 (amended). For all integers \<open>x1\<close>, \<open>y1\<close>, \<open>dx\<close>, \<open>dy\<close> (negative or oversized
  deltas included) and all \<^emph>\<open>non-negative\<close> integers \<open>max_y\<close>, \<open>max_x\<close>, every
  coordinate of the list returned by \<open>fix_mtcnn_bb\<close> lies within \<open>[0, max_x]\<close> for the
  x-coordinates and within \<open>[0, max_y]\<close> for the y-coordinates.
\<close>

theorem fix_mtcnn_bb_within:
  assumes "0 \<le> max_x" and "0 \<le> max_y"
  shows "bb_within max_y max_x (fix_mtcnn_bb max_y max_x x1 y1 dx dy)"
  using assms by (simp add: fix_mtcnn_bb_def Let_def)

theorem fix_mtcnn_bb_within_witness:
  "(0::int) \<le> 100 \<and> (0::int) \<le> 80 \<and>
   fix_mtcnn_bb 80 100 (-5) 70 200 (-90) = [0, 70, 100, 0] \<and>
   bb_within 80 100 (fix_mtcnn_bb 80 100 (-5) 70 200 (-90))"
  using fix_mtcnn_bb_within [of 100 80 "-5" 70 200 "-90"]
  by (simp add: fix_mtcnn_bb_def Let_def)

text \<open>
  C6 as stated quantifies over all integers \<open>max_y\<close>, \<open>max_x\<close>. With a negative
  maximum the interval \<open>[0, max]\<close> is empty, and the clamp answers \<open>0\<close>.
\<close>

theorem fix_mtcnn_bb_within_counterexample:
  "fix_mtcnn_bb (-1) (-1) 0 0 0 0 = [0, 0, 0, 0] \<and>
   \<not> bb_within (-1) (-1) (fix_mtcnn_bb (-1) (-1) 0 0 0 0)"
  by (simp add: fix_mtcnn_bb_def Let_def)

text \<open>
  C7 (amended). For every input to \<open>fix_mtcnn_bb\<close> whose deltas are non-negative
  (\<open>0 \<le> dx\<close> and \<open>0 \<le> dy\<close>), the returned box \<open>[x1', y1', x2', y2']\<close> satisfies
  \<open>x1' \<le> x2'\<close> and \<open>y1' \<le> y2'\<close>; when moreover \<open>max_x\<close> and \<open>max_y\<close> are
  non-negative, the box is clamped to the image extent.
\<close>

theorem fix_mtcnn_bb_ordered:
  assumes "0 \<le> dx" and "0 \<le> dy"
  shows "bb_ordered (fix_mtcnn_bb max_y max_x x1 y1 dx dy) \<and>
         (0 \<le> max_x \<and> 0 \<le> max_y \<longrightarrow>
            bb_within max_y max_x (fix_mtcnn_bb max_y max_x x1 y1 dx dy))"
  using assms by (auto simp add: fix_mtcnn_bb_def Let_def)

theorem fix_mtcnn_bb_ordered_witness:
  "(0::int) \<le> 30 \<and> (0::int) \<le> 200 \<and> (0::int) \<le> 100 \<and> (0::int) \<le> 80 \<and>
   fix_mtcnn_bb 80 100 (-5) 70 30 200 = [0, 70, 25, 80] \<and>
   bb_ordered (fix_mtcnn_bb 80 100 (-5) 70 30 200) \<and>
   bb_within 80 100 (fix_mtcnn_bb 80 100 (-5) 70 30 200)"
  using fix_mtcnn_bb_ordered [of 30 200 80 100 "-5" 70]
  by (simp add: fix_mtcnn_bb_def Let_def)

text \<open>
  C7 as stated covers every input. A negative delta puts the second corner before
  the first, and clamping each coordinate on its own keeps that order.
\<close>

theorem fix_mtcnn_bb_ordered_counterexample:
  "fix_mtcnn_bb 10 10 5 5 (-3) 0 = [5, 5, 2, 5] \<and>
   \<not> bb_ordered (fix_mtcnn_bb 10 10 5 5 (-3) 0)"
  by (simp add: fix_mtcnn_bb_def Let_def)

subsection \<open>Shape repair\<close>

text \<open>Cutting data into blocks and gluing the blocks again gives the data back.\<close>

lemma concat_blocks: "0 < p \<Longrightarrow> concat (blocks p xs) = xs"
proof (induction p xs rule: blocks.induct)
  case (1 n xs)
  show ?case
  proof (cases "xs = []")
    case True
    then show ?thesis by (simp add: blocks.simps)
  next
    case False
    with 1 have "concat (blocks n (drop n xs)) = drop n xs" by simp
    with False 1(2) show ?thesis by (subst blocks.simps) simp
  qed
qed

lemma blocks_lengths:
  "0 < p \<Longrightarrow> length xs = n * p \<Longrightarrow> b \<in> set (blocks p xs) \<Longrightarrow> length b = p"
proof (induction n arbitrary: xs)
  case 0
  then show ?case by (simp add: blocks.simps)
next
  case (Suc n)
  from Suc.prems have ne: "xs \<noteq> []" by auto
  have rest: "length (drop p xs) = n * p" using Suc.prems by simp
  from Suc.prems(3) ne Suc.prems(1)
  have "b = take p xs \<or> b \<in> set (blocks p (drop p xs))"
    by (subst (asm) blocks.simps) auto
  then show ?case
  proof
    assume "b = take p xs"
    then show ?thesis using Suc.prems by simp
  next
    assume "b \<in> set (blocks p (drop p xs))"
    then show ?thesis using Suc.IH [OF Suc.prems(1) rest] by simp
  qed
qed

lemma blocks_count: "0 < p \<Longrightarrow> length xs = n * p \<Longrightarrow> length (blocks p xs) = n"
proof (induction n arbitrary: xs)
  case 0
  then show ?case by (simp add: blocks.simps)
next
  case (Suc n)
  from Suc.prems have ne: "xs \<noteq> []" by auto
  have rest: "length (drop p xs) = n * p" using Suc.prems by simp
  show ?case using Suc.IH [OF Suc.prems(1) rest] ne Suc.prems(1)
    by (subst blocks.simps) simp
qed

text \<open>A slice that covers its whole axis leaves the data of a well-formed array as it is.\<close>

lemma slice_data_full:
  "length xs = prod_list shp \<Longrightarrow> k < length shp \<Longrightarrow>
   slice_bound (shp ! k) start = 0 \<Longrightarrow> slice_bound (shp ! k) stop = shp ! k \<Longrightarrow>
   slice_data k start stop shp xs = xs"
proof (induction k start stop shp xs rule: slice_data.induct)
  case (1 k start stop xs)
  then show ?case by simp
next
  case (2 start stop n rest xs)
  show ?case
  proof (cases "prod_list rest = 0")
    case True
    with 2 show ?thesis by (simp add: blocks.simps slice_list_def)
  next
    case False
    then have pos: "0 < prod_list rest" by simp
    have len: "length xs = n * prod_list rest" using 2 by simp
    have "length (blocks (prod_list rest) xs) = n" using blocks_count [OF pos len] .
    then have "slice_list n start stop (blocks (prod_list rest) xs) = blocks (prod_list rest) xs"
      using 2 by (simp add: slice_list_def slice_len_def)
    then show ?thesis using concat_blocks [OF pos] by simp
  qed
next
  case (3 k start stop n rest xs)
  show ?case
  proof (cases "prod_list rest = 0")
    case True
    with 3 show ?thesis by (simp add: blocks.simps)
  next
    case False
    then have pos: "0 < prod_list rest" by simp
    have len: "length xs = n * prod_list rest" using 3 by simp
    have "slice_data k start stop rest b = b" if "b \<in> set (blocks (prod_list rest) xs)" for b
    proof -
      have "length b = prod_list rest" using blocks_lengths [OF pos len that] .
      then show ?thesis using 3 that by simp
    qed
    then have "map (slice_data k start stop rest) (blocks (prod_list rest) xs)
                 = blocks (prod_list rest) xs"
      by (simp add: map_idI)
    then show ?thesis using concat_blocks [OF pos] by simp
  qed
qed

lemma triple_nth:
  "n < length xs \<Longrightarrow> k < 3 \<Longrightarrow>
   concat (map (\<lambda>v. [f v, f v, f v]) xs) ! (n * 3 + k) = f (xs ! n)"
proof (induction xs arbitrary: n)
  case Nil
  then show ?case by simp
next
  case (Cons x xs)
  show ?case
  proof (cases n)
    case 0
    with Cons.prems show ?thesis
      by (auto simp add: less_Suc_eq numeral_3_eq_3)
  next
    case (Suc m)
    with Cons.prems have "m < length xs" by simp
    from Cons.IH [OF this Cons.prems(2)] Suc show ?thesis
      by (simp add: nth_Cons numeral_3_eq_3)
  qed
qed

lemma triple_length: "length (concat (map (\<lambda>v. [f v, f v, f v]) xs)) = length xs * 3"
  by (induction xs) simp_all

lemma flat_index: "i < h \<Longrightarrow> j < w \<Longrightarrow> i * w + j < h * (w::nat)"
proof -
  assume "i < h" and "j < w"
  then have "i * w + j < Suc i * w" by simp
  also have "\<dots> \<le> h * w" using \<open>i < h\<close> by (intro mult_le_mono1) simp
  finally show ?thesis .
qed

text \<open>The three paths of \<open>fix_image\<close>, by the number of axes of its input.\<close>

lemma fix_image_two_axes:
  assumes "well_formed img" and "shape img = [h, w]"
  shows "fix_image as_uint8 img =
           Inr \<lparr>shape = [h, w, 3],
                data = concat (map (\<lambda>v. [as_uint8 v, as_uint8 v, as_uint8 v]) (data img))\<rparr>"
proof -
  let ?d = "concat (map (\<lambda>v. [as_uint8 v, as_uint8 v, as_uint8 v]) (data img))"
  have len: "length ?d = prod_list [h, w, 3]"
    using assms by (simp add: triple_length well_formed_def)
  have full: "slice_data 2 0 3 [h, w, 3] ?d = ?d"
    by (rule slice_data_full [OF len]) (simp_all add: slice_bound_def)
  have "slice_axis 2 0 3 \<lparr>shape = [h, w, 3], data = ?d\<rparr> = \<lparr>shape = [h, w, 3], data = ?d\<rparr>"
    using full by (simp add: slice_axis_def slice_len_def slice_bound_def)
  then show ?thesis
    using assms(2) by (simp add: fix_image_def add_color_def index_channels_def ndim_def)
qed

lemma fix_image_three_axes:
  assumes "shape img = [h, w, c]"
  shows "\<exists>out. fix_image as_uint8 img = Inr out \<and> shape out = [h, w, min c 3]"
  using assms
  by (auto simp add: fix_image_def index_channels_def ndim_def slice_axis_def slice_len_def
      slice_bound_def)

text \<open>
  On an array of fewer than two axes the branch \<open>image[:, :, np.newaxis]\<close> is taken,
  and its two leading slices are more indices than the array has: no axis is added,
  \<open>fix_image\<close> raises IndexError.
\<close>

lemma fix_image_few_axes:
  assumes "ndim img < 2"
  shows "fix_image as_uint8 img = Inl (IndexError ''too many indices for array'')"
  using assms by (simp add: fix_image_def index_newaxis_def)

text \<open>
  C3 (amended). For every well-formed array of exactly two axes \<open>(H, W)\<close>,
  \<open>fix_image\<close> returns an array of shape \<open>(H, W, 3)\<close>, so 3 channels and the height and
  width of its input, whose three channels are equal: each holds at \<open>(i, j)\<close> the input's
  element \<open>(i, j)\<close> as \<open>add_color\<close>'s \<open>uint8\<close> buffer stores it. For every array of
  exactly three axes \<open>(H, W, C)\<close> it returns an array of shape \<open>(H, W, min(C, 3))\<close>: the
  height and width of its input, and exactly 3 channels when \<open>C \<ge> 3\<close>.
\<close>

theorem fix_image_channels:
  "(well_formed img \<and> shape img = [h, w] \<longrightarrow>
      three_channel_result img (fix_image as_uint8 img) \<and>
      (\<exists>out. fix_image as_uint8 img = Inr out \<and> shape out = [h, w, 3] \<and>
         (\<forall>i<h. \<forall>j<w. \<forall>k<3. at3 out i j k = as_uint8 (at2 img i j)))) \<and>
   (shape img = [h, w, c] \<longrightarrow>
      (\<exists>out. fix_image as_uint8 img = Inr out \<and> shape out = [h, w, min c 3]) \<and>
      (3 \<le> c \<longrightarrow> three_channel_result img (fix_image as_uint8 img)))"
proof (rule conjI; rule impI)
  assume a: "well_formed img \<and> shape img = [h, w]"
  let ?out = "\<lparr>shape = [h, w, 3],
                data = concat (map (\<lambda>v. [as_uint8 v, as_uint8 v, as_uint8 v]) (data img))\<rparr>"
  have r: "fix_image as_uint8 img = Inr ?out"
    using a by (simp add: fix_image_two_axes)
  have pixels: "at3 ?out i j k = as_uint8 (at2 img i j)" if "i < h" "j < w" "k < 3" for i j k
  proof -
    have "i * w + j < length (data img)"
      using a that flat_index [of i h j w] by (simp add: well_formed_def)
    from triple_nth [OF this \<open>k < 3\<close>, of as_uint8]
    show ?thesis using a by (simp add: at3_def at2_def)
  qed
  have shaped: "three_channel_result img (fix_image as_uint8 img)"
    using a r by (simp add: three_channel_result_def)
  from r pixels have
    "\<exists>out. fix_image as_uint8 img = Inr out \<and> shape out = [h, w, 3] \<and>
       (\<forall>i<h. \<forall>j<w. \<forall>k<3. at3 out i j k = as_uint8 (at2 img i j))"
    by auto
  with shaped show "three_channel_result img (fix_image as_uint8 img) \<and>
      (\<exists>out. fix_image as_uint8 img = Inr out \<and> shape out = [h, w, 3] \<and>
         (\<forall>i<h. \<forall>j<w. \<forall>k<3. at3 out i j k = as_uint8 (at2 img i j)))"
    by (rule conjI)
next
  assume a: "shape img = [h, w, c]"
  then obtain out where out: "fix_image as_uint8 img = Inr out" "shape out = [h, w, min c 3]"
    using fix_image_three_axes [of img h w c as_uint8] by blast
  then have "3 \<le> c \<longrightarrow> three_channel_result img (fix_image as_uint8 img)"
    using a by (simp add: three_channel_result_def)
  with out show "(\<exists>out. fix_image as_uint8 img = Inr out \<and> shape out = [h, w, min c 3]) \<and>
      (3 \<le> c \<longrightarrow> three_channel_result img (fix_image as_uint8 img))"
    by blast
qed

theorem fix_image_channels_witness:
  "well_formed \<lparr>shape = [2, 2], data = [7, 300, 2, 3 :: nat]\<rparr> \<and>
   three_channel_result \<lparr>shape = [2, 2], data = [7, 300, 2, 3 :: nat]\<rparr>
     (fix_image (\<lambda>v. v mod 256) \<lparr>shape = [2, 2], data = [7, 300, 2, 3 :: nat]\<rparr>) \<and>
   fix_image (\<lambda>v. v mod 256) \<lparr>shape = [2, 2], data = [7, 300, 2, 3 :: nat]\<rparr>
     = Inr \<lparr>shape = [2, 2, 3], data = [7, 7, 7, 44, 44, 44, 2, 2, 2, 3, 3, 3]\<rparr> \<and>
   (3 :: nat) \<le> 4 \<and>
   three_channel_result \<lparr>shape = [1, 2, 4], data = [1, 2, 3, 4, 5, 6, 7, 8 :: nat]\<rparr>
     (fix_image (\<lambda>v. v mod 256) \<lparr>shape = [1, 2, 4], data = [1, 2, 3, 4, 5, 6, 7, 8 :: nat]\<rparr>) \<and>
   fix_image (\<lambda>v. v mod 256) \<lparr>shape = [1, 2, 4], data = [1, 2, 3, 4, 5, 6, 7, 8 :: nat]\<rparr>
     = Inr \<lparr>shape = [1, 2, 3], data = [1, 2, 3, 5, 6, 7]\<rparr>"
proof -
  have gray:
    "three_channel_result \<lparr>shape = [2, 2], data = [7, 300, 2, 3 :: nat]\<rparr>
       (fix_image (\<lambda>v. v mod 256) \<lparr>shape = [2, 2], data = [7, 300, 2, 3 :: nat]\<rparr>)"
    using fix_image_channels [where img = "\<lparr>shape = [2, 2], data = [7, 300, 2, 3 :: nat]\<rparr>"
        and h = 2 and w = 2 and ?as_uint8.0 = "\<lambda>v. v mod 256"]
    by (simp add: well_formed_def)
  have alpha:
    "three_channel_result \<lparr>shape = [1, 2, 4], data = [1, 2, 3, 4, 5, 6, 7, 8 :: nat]\<rparr>
       (fix_image (\<lambda>v. v mod 256) \<lparr>shape = [1, 2, 4], data = [1, 2, 3, 4, 5, 6, 7, 8 :: nat]\<rparr>)"
    using fix_image_channels [where img = "\<lparr>shape = [1, 2, 4], data = [1, 2, 3, 4, 5, 6, 7, 8 :: nat]\<rparr>"
        and h = 1 and w = 2 and c = 4 and ?as_uint8.0 = "\<lambda>v. v mod 256"]
    by simp
  have gray_value:
    "fix_image (\<lambda>v. v mod 256) \<lparr>shape = [2, 2], data = [7, 300, 2, 3 :: nat]\<rparr>
       = Inr \<lparr>shape = [2, 2, 3], data = [7, 7, 7, 44, 44, 44, 2, 2, 2, 3, 3, 3]\<rparr>"
    by code_simp
  have alpha_value:
    "fix_image (\<lambda>v. v mod 256) \<lparr>shape = [1, 2, 4], data = [1, 2, 3, 4, 5, 6, 7, 8 :: nat]\<rparr>
       = Inr \<lparr>shape = [1, 2, 3], data = [1, 2, 3, 5, 6, 7]\<rparr>"
    by code_simp
  have formed: "well_formed \<lparr>shape = [2, 2], data = [7, 300, 2, 3 :: nat]\<rparr>"
    by (simp add: well_formed_def)
  show ?thesis
    using formed gray gray_value alpha alpha_value
    by (intro conjI) simp_all
qed

text \<open>
  C3 as stated covers every input array. An image of three axes with a single
  channel comes back with its single channel: the slice \<open>0:3\<close> only ever removes
  channels.
\<close>

theorem fix_image_channels_counterexample:
  "fix_image (\<lambda>v. v mod 256) \<lparr>shape = [1, 2, 1], data = [7, 9 :: nat]\<rparr>
     = Inr \<lparr>shape = [1, 2, 1], data = [7, 9]\<rparr> \<and>
   \<not> three_channel_result \<lparr>shape = [1, 2, 1], data = [7, 9 :: nat]\<rparr>
       (fix_image (\<lambda>v. v mod 256) \<lparr>shape = [1, 2, 1], data = [7, 9 :: nat]\<rparr>)"
proof -
  have value_of:
    "fix_image (\<lambda>v. v mod 256) \<lparr>shape = [1, 2, 1], data = [7, 9 :: nat]\<rparr>
       = Inr \<lparr>shape = [1, 2, 1], data = [7, 9]\<rparr>"
    by code_simp
  then show ?thesis by (simp add: three_channel_result_def)
qed

subsection \<open>Embedding distance\<close>

text \<open>
  C4 (amended). For every distance-metric selector whose comparison with
  \<open>EUCLIDEAN_SQUARED\<close> and whose comparison with \<open>ANGULAR_DISTANCE\<close> both test false
  (\<open>None\<close>, a string, a number, any value with the default equality),
  \<open>embedding_distance_bulk\<close> raises nothing and returns no result: it falls through to
  Python's \<open>None\<close>, whatever the embeddings and the library.
\<close>

theorem embedding_distance_bulk_other:
  assumes "test_eq distance_metric EUCLIDEAN_SQUARED = Inr False"
    and "test_eq distance_metric ANGULAR_DISTANCE = Inr False"
  shows "embedding_distance_bulk lib embeddings1 embeddings2 distance_metric = Inr None"
  using assms by (simp add: embedding_distance_bulk_def)

theorem embedding_distance_bulk_other_witness:
  "test_eq (Other (\<lambda>member. Inr False)) EUCLIDEAN_SQUARED = Inr False \<and>
   test_eq (Other (\<lambda>member. Inr False)) ANGULAR_DISTANCE = Inr False \<and>
   embedding_distance_bulk
     \<lparr>paired_distances = (\<lambda>a b m. Inr (0 :: int)), np_square = (\<lambda>d. d * d),
      np_arccos = (\<lambda>d. d), one_minus = (\<lambda>d. 1 - d), divide_by_pi = (\<lambda>d. d)\<rparr>
     [1, 0, 0 :: int] [0, 1, 0] (Other (\<lambda>member. Inr False)) = Inr None"
  using embedding_distance_bulk_other [of "Other (\<lambda>member. Inr False)"
      "\<lparr>paired_distances = (\<lambda>a b m. Inr (0 :: int)), np_square = (\<lambda>d. d * d),
        np_arccos = (\<lambda>d. d), one_minus = (\<lambda>d. 1 - d), divide_by_pi = (\<lambda>d. d)\<rparr>"
      "[1, 0, 0 :: int]" "[0, 1, 0]"]
  by (simp add: test_eq_def)

text \<open>
  C4 as stated covers every selector other than the two members. A numpy array of
  several elements is one: its comparison with a member is an array, the \<open>if\<close> cannot
  take the truth of it, and the function raises ValueError instead of returning
  \<open>None\<close>.
\<close>

theorem embedding_distance_bulk_other_counterexample:
  "Other (\<lambda>member. Inl (ValueError
       ''The truth value of an array with more than one element is ambiguous''))
     \<noteq> Member EUCLIDEAN_SQUARED \<and>
   Other (\<lambda>member. Inl (ValueError
       ''The truth value of an array with more than one element is ambiguous''))
     \<noteq> Member ANGULAR_DISTANCE \<and>
   embedding_distance_bulk
     \<lparr>paired_distances = (\<lambda>a b m. Inr (0 :: int)), np_square = (\<lambda>d. d * d),
      np_arccos = (\<lambda>d. d), one_minus = (\<lambda>d. 1 - d), divide_by_pi = (\<lambda>d. d)\<rparr>
     [1, 0, 0 :: int] [0, 1, 0]
     (Other (\<lambda>member. Inl (ValueError
        ''The truth value of an array with more than one element is ambiguous'')))
     = Inl (ValueError ''The truth value of an array with more than one element is ambiguous'')"
  by (simp add: embedding_distance_bulk_def test_eq_def)

subsection \<open>Preprocessing\<close>

text \<open>
  The size of the margin-expanded canvas is computed, and cannot fail, for a desired
  size up to \<open>2 ^ 52\<close> and a margin in \<open>[0, 1]\<close>.
\<close>

lemma canvas_size:
  assumes "0 \<le> n" and "n \<le> 2 ^ 52" and "0 \<le> margin" and "margin \<le> 1"
  obtains v where "py_int (f_add (of_int n) (round64 (of_int n * margin))) = Inr v"
proof -
  have n: "\<bar>n\<bar> \<le> 2 ^ 53" and n2: "\<bar>2 * n\<bar> \<le> 2 ^ 53" and z: "\<bar>0::int\<bar> \<le> 2 ^ 53"
    using assms by simp_all
  have "of_int 0 \<le> of_int n * margin" using assms by simp
  moreover have "of_int n * margin \<le> of_int n"
    using assms by (simp add: mult_left_le)
  ultimately obtain p where p: "round64 (of_int n * margin) = Finite p"
    "of_int 0 \<le> p" "p \<le> of_int n"
    by (rule between_ints [OF z n])
  then have "of_int n \<le> of_int n + p" and "of_int n + p \<le> of_int (2 * n)" by simp_all
  then obtain r where "round64 (of_int n + p) = Finite r"
    by (rule between_ints [OF n n2])
  with p(1) have "py_int (f_add (of_int n) (round64 (of_int n * margin))) = Inr (toward_zero r)"
    by (simp add: py_int_def)
  then show ?thesis by (rule that)
qed

text \<open>
  The product is rounded before the sum: for a desired size of 160 and the float
  \<open>0.7\<close> the product is the float 112 and the canvas side 272, where the exact sum
  lies just below 272.
\<close>

lemma canvas_rounding:
  "py_int (f_add 160 (round64 (160 * (6305039478318694 / 9007199254740992)))) = Inr 272"
  and "(160 + 160 * (6305039478318694 / 9007199254740992) :: real) < 272"
  by code_simp+

lemma sixteenth:
  assumes "n \<le> 2 ^ 53"
  shows "py_int (round64 (real n * 0.0625)) = Inr (int n div 16)"
proof -
  have value_of: "real n * 0.0625 = of_int (int n) * 2 powi (- 4)"
    by (simp add: power_int_minus field_simps)
  have small: "\<bar>int n\<bar> \<le> 2 ^ 53" using assms by simp
  have "\<bar>real n * 0.0625\<bar> \<le> \<bar>real_of_int (int n)\<bar>" by simp
  also have "\<dots> < 2 ^ 1024" by (rule small_int [OF small])
  finally have "round64 (real n * 0.0625) = Finite (real n * 0.0625)"
    using small by (intro round64_exact [OF value_of]) simp_all
  moreover have "\<lfloor>real_of_int (int n) / real_of_int 16\<rfloor> = int n div 16"
    by (simp only: floor_divide_of_int_eq)
  ultimately show ?thesis by (simp add: py_int_def toward_zero_def)
qed

text \<open>
  With no landmarks and no bounding box, \<open>preprocess\<close> hands \<open>crop\<close> the box
  \<open>(H div 16, W div 16, W - H div 16, H - W div 16)\<close> for an image of height \<open>H\<close> and
  width \<open>W\<close>: the x-coordinates are inset by a sixteenth of the height and the
  y-coordinates by a sixteenth of the width.
\<close>

lemma preprocess_center_crop:
  assumes "shape img = h # w # rest" and "h \<le> 2 ^ 53" and "w \<le> 2 ^ 53"
    and "0 \<le> desired_height" and "desired_height \<le> 2 ^ 52"
    and "0 \<le> desired_width" and "desired_width \<le> 2 ^ 52"
    and "0 \<le> margin" and "margin \<le> 1"
  shows "preprocess estimate warp_affine img desired_height desired_width margin None None =
           then_do (crop img [int h div 16, int w div 16,
                              int w - int h div 16, int h - int w div 16] margin)
             (\<lambda>(cropped, box). Inr cropped)"
proof -
  obtain mh where
    mh: "py_int (f_add (of_int desired_height) (round64 (of_int desired_height * margin))) = Inr mh"
    using canvas_size [of desired_height margin] assms by blast
  obtain mw where
    mw: "py_int (f_add (of_int desired_width) (round64 (of_int desired_width * margin))) = Inr mw"
    using canvas_size [of desired_width margin] assms by blast
  have sizes: "\<bar>desired_height\<bar> \<le> 2 ^ 53" "\<bar>desired_width\<bar> \<le> 2 ^ 53"
    "\<bar>int h\<bar> \<le> 2 ^ 53" "\<bar>int w\<bar> \<le> 2 ^ 53"
    using assms by simp_all
  have a: "py_int (round64 (real_of_int (int h) * 0.0625)) = Inr (int h div 16)"
    and b: "py_int (round64 (real_of_int (int w) * 0.0625)) = Inr (int w div 16)"
    using sixteenth [OF assms(2)] sixteenth [OF assms(3)] by simp_all
  show ?thesis
    using assms(1) sizes mh mw a b
    by (simp add: preprocess_def float_of_int_exact)
qed

text \<open>
  C8. The claim: with no landmarks and no bounding box, \<open>preprocess\<close> insets the
  x-coordinates of the center-crop box by 6.25% of the width and the y-coordinates by
  6.25% of the height. On an image of height 16 and width 3 that box is
  \<open>(0, 1, 3, 15)\<close>, whose crop has 14 rows and 3 columns; \<open>preprocess\<close> returns the 16
  rows of column 1, the crop of the box \<open>(1, 0, 2, 16)\<close>.
\<close>

theorem preprocess_center_crop_swapped:
  "preprocess estimate warp_affine \<lparr>shape = [16, 3, 1], data = [0..<48]\<rparr> 112 112 0 None None
     = Inr \<lparr>shape = [16, 1, 1],
            data = [1, 4, 7, 10, 13, 16, 19, 22, 25, 28, 31, 34, 37, 40, 43, 46]\<rparr> \<and>
   crop \<lparr>shape = [16, 3, 1], data = [0..<48]\<rparr> [1, 0, 2, 16] 0
     = Inr (\<lparr>shape = [16, 1, 1],
             data = [1, 4, 7, 10, 13, 16, 19, 22, 25, 28, 31, 34, 37, 40, 43, 46]\<rparr>,
            (1, 0, 2, 16)) \<and>
   crop \<lparr>shape = [16, 3, 1], data = [0..<48]\<rparr> [0, 1, 3, 15] 0
     = Inr (\<lparr>shape = [14, 3, 1], data = [3..<45]\<rparr>, (0, 1, 3, 15))"
proof -
  let ?img = "\<lparr>shape = [16, 3, 1], data = [0..<48]\<rparr>"
  have column: "slice_axis 1 1 2 (slice_axis 0 0 16 ?img)
      = \<lparr>shape = [16, 1, 1],
         data = [1, 4, 7, 10, 13, 16, 19, 22, 25, 28, 31, 34, 37, 40, 43, 46]\<rparr>"
    by code_simp
  have centre: "slice_axis 1 0 3 (slice_axis 0 1 15 ?img)
      = \<lparr>shape = [14, 3, 1], data = [3..<45]\<rparr>"
    by code_simp
  have "crop ?img [1, 0, 2, 16] 0
      = Inr (slice_axis 1 1 2 (slice_axis 0 0 16 ?img), (1, 0, 2, 16))"
    by (rule crop_without_margin [where H = 16 and W = 3 and rest = "[1]"]) simp_all
  then have code_box: "crop ?img [1, 0, 2, 16] 0
      = Inr (\<lparr>shape = [16, 1, 1],
              data = [1, 4, 7, 10, 13, 16, 19, 22, 25, 28, 31, 34, 37, 40, 43, 46]\<rparr>,
             (1, 0, 2, 16))"
    by (simp only: column)
  have "crop ?img [0, 1, 3, 15] 0
      = Inr (slice_axis 1 0 3 (slice_axis 0 1 15 ?img), (0, 1, 3, 15))"
    by (rule crop_without_margin [where H = 16 and W = 3 and rest = "[1]"]) simp_all
  then have claim_box: "crop ?img [0, 1, 3, 15] 0
      = Inr (\<lparr>shape = [14, 3, 1], data = [3..<45]\<rparr>, (0, 1, 3, 15))"
    by (simp only: centre)
  have "preprocess estimate warp_affine ?img 112 112 0 None None
      = then_do (crop ?img [int 16 div 16, int 3 div 16,
                            int 3 - int 16 div 16, int 16 - int 3 div 16] 0)
          (\<lambda>(cropped, box). Inr cropped)"
    by (rule preprocess_center_crop [where h = 16 and w = 3 and rest = "[1]"]) simp_all
  also have "[int 16 div 16, int 3 div 16, int 3 - int 16 div 16, int 16 - int 3 div 16]
      = [1, 0, 2, 16]"
    by simp
  finally have returned: "preprocess estimate warp_affine ?img 112 112 0 None None
      = Inr \<lparr>shape = [16, 1, 1],
             data = [1, 4, 7, 10, 13, 16, 19, 22, 25, 28, 31, 34, 37, 40, 43, 46]\<rparr>"
    by (simp only: code_box then_do_Inr prod.case)
  from returned code_box claim_box show ?thesis by (intro conjI)
qed

end
